theory Spec2Isabelle
  imports Main "HOL-Library.Multiset"
begin

section \<open>Data model (models.py, schemas.py)\<close>

text \<open>
  A \<^verbatim>\<open>datetime\<close> is modelled by an integer (microseconds); only its order is used.
  Each table is the list of its rows in insertion order.  The association table
  \<^verbatim>\<open>user_coins\<close> has two foreign-key columns and no key of its own.
\<close>

type_synonym time = int

record User =
  u_id :: nat
  username :: string
  email :: string
  hashed_password :: string
  created_at :: time

record Coin =
  c_id :: nat
  name :: string
  symbol :: string

text \<open>
  Values decoded from a JSON body, as Python holds them.  The number type is left
  open; only its zero is observed (truthiness).  A \<^verbatim>\<open>dict\<close> is an association
  list read with \<^const>\<open>map_of\<close>.
\<close>

datatype 'n json =
    JNull
  | JBool bool
  | JNum 'n
  | JStr string
  | JList "'n json list"
  | JDict "(string \<times> 'n json) list"

text \<open>
  The \<^verbatim>\<open>price\<close> column holds the value handed to the ORM by the caller.  The three
  optional columns are never set by this program.
\<close>

record 'n PriceHistory =
  ph_id :: nat
  coin_id :: nat
  price :: "'n json"
  volume_24h :: "'n option"
  change_24h :: "'n option"
  market_cap :: "'n option"
  timestamp :: time

record 'n db =
  users :: "User list"
  coins :: "Coin list"
  user_coins :: "(nat \<times> nat) list"
  price_history :: "'n PriceHistory list"

record UserCreate =
  uc_username :: string
  uc_email :: string
  uc_password :: string

record CoinCreate =
  cc_name :: string
  cc_symbol :: string

section \<open>Exceptions and HTTP errors\<close>

datatype py_exception =
    ValueError
  | AttributeError
  | TypeError
  | JSONDecodeError
  | ConnectionError
  | IntegrityError

text \<open>
  The detail of an \<^verbatim>\<open>HTTPException\<close> is a literal text, or a literal prefix followed
  by \<^verbatim>\<open>str(e)\<close> of a caught exception (kept symbolic).  An exception that no handler
  catches leaves the endpoint as \<open>Uncaught\<close>; the framework answers 500.
\<close>

datatype detail = Msg string | MsgExc string py_exception

datatype raised = HTTPException nat detail | Uncaught py_exception

fun response_status :: "raised \<Rightarrow> nat" where
  "response_status (HTTPException code d) = code"
| "response_status (Uncaught e) = 500"

section \<open>Query primitives\<close>

text \<open>\<^verbatim>\<open>Query.first()\<close>: the first row of the result, or \<^verbatim>\<open>None\<close>.\<close>

definition first :: "'a list \<Rightarrow> 'a option" where
  "first rows = (case rows of [] \<Rightarrow> None | r # _ \<Rightarrow> Some r)"

text \<open>An auto-incremented integer primary key: one more than the greatest key in use.\<close>

definition next_id :: "nat list \<Rightarrow> nat" where
  "next_id ids = Suc (fold max ids 0)"

section \<open>User operations (crud.py)\<close>

definition get_user_by_username :: "'n db \<Rightarrow> string \<Rightarrow> User option" where
  "get_user_by_username db uname = first (filter (\<lambda>u. username u = uname) (users db))"

definition get_user_by_email :: "'n db \<Rightarrow> string \<Rightarrow> User option" where
  "get_user_by_email db mail = first (filter (\<lambda>u. email u = mail) (users db))"

text \<open>
  \<^verbatim>\<open>get_password_hash\<close> and \<^verbatim>\<open>verify_password\<close> live in the \<^verbatim>\<open>auth\<close> module and are
  parameters here.  \<^verbatim>\<open>created_at\<close> defaults to the clock reading \<open>now\<close>.  The columns
  \<^verbatim>\<open>username\<close> and \<^verbatim>\<open>email\<close> are declared unique, so the insert is refused when
  either value is already stored.
\<close>

definition create_user ::
  "(string \<Rightarrow> string) \<Rightarrow> time \<Rightarrow> 'n db \<Rightarrow> UserCreate \<Rightarrow> 'n db \<times> (py_exception + User)" where
  "create_user get_password_hash now db user =
     (let hashed = get_password_hash (uc_password user);
          db_user = \<lparr>u_id = next_id (map u_id (users db)),
                     username = uc_username user,
                     email = uc_email user,
                     hashed_password = hashed,
                     created_at = now\<rparr>
      in if uc_username user \<in> set (map username (users db))
            \<or> uc_email user \<in> set (map email (users db))
         then (db, Inl IntegrityError)
         else (db\<lparr>users := users db @ [db_user]\<rparr>, Inr db_user))"

text \<open>The source returns \<^verbatim>\<open>False\<close> or the user; \<open>None\<close> stands for \<^verbatim>\<open>False\<close>.\<close>

definition authenticate_user ::
  "(string \<Rightarrow> string \<Rightarrow> bool) \<Rightarrow> 'n db \<Rightarrow> string \<Rightarrow> string \<Rightarrow> User option" where
  "authenticate_user verify_password db uname password =
     (case get_user_by_username db uname of
        None \<Rightarrow> None
      | Some user \<Rightarrow>
          if \<not> verify_password password (hashed_password user) then None
          else Some user)"

section \<open>Registration endpoint (main.py)\<close>

definition register_user ::
  "(string \<Rightarrow> string) \<Rightarrow> time \<Rightarrow> UserCreate \<Rightarrow> 'n db \<Rightarrow> 'n db \<times> (raised + User)" where
  "register_user get_password_hash now user db =
     (case get_user_by_username db (uc_username user) of
        Some db_user \<Rightarrow> (db, Inl (HTTPException 400 (Msg ''Username already registered'')))
      | None \<Rightarrow>
          (case get_user_by_email db (uc_email user) of
             Some db_user \<Rightarrow> (db, Inl (HTTPException 400 (Msg ''Email already registered'')))
           | None \<Rightarrow>
               (case create_user get_password_hash now db user of
                  (db', Inl e) \<Rightarrow> (db', Inl (Uncaught e))
                | (db', Inr db_user) \<Rightarrow> (db', Inr db_user))))"

section \<open>Watchlist operations (crud.py)\<close>

text \<open>
  \<^verbatim>\<open>user.coins\<close> is the relationship through the association table: one list entry
  for every association row of the user, joined with the coin of that identifier.
\<close>

definition user_coins_of :: "'n db \<Rightarrow> User \<Rightarrow> Coin list" where
  "user_coins_of db user =
     concat (map (\<lambda>(uid, cid). if uid = u_id user
                                  then filter (\<lambda>c. c_id c = cid) (coins db) else [])
                 (user_coins db))"

text \<open>
  \<^verbatim>\<open>db.commit()\<close> after a change of \<^verbatim>\<open>user.coins\<close>.  The ORM's unit of work compares
  the collection as it was loaded (\<open>original\<close>) with the collection as it stands
  (\<open>current\<close>): it inserts an association row for each member of \<open>current\<close> that is
  not among \<open>original\<close>, and deletes the rows of each member of \<open>original\<close> that is no
  longer among \<open>current\<close>.  Members present on both sides cause no statement.
\<close>

definition flush_user_coins :: "'n db \<Rightarrow> User \<Rightarrow> Coin list \<Rightarrow> Coin list \<Rightarrow> 'n db" where
  "flush_user_coins db user original current =
     (let added = filter (\<lambda>c. c \<notin> set original) current;
          deleted = filter (\<lambda>c. c \<notin> set current) original
      in db\<lparr>user_coins :=
              filter (\<lambda>(uid, cid). \<not> (uid = u_id user \<and> cid \<in> set (map c_id deleted)))
                     (user_coins db)
              @ map (\<lambda>c. (u_id user, c_id c)) added\<rparr>)"


text \<open>
  \<^verbatim>\<open>list.remove(x)\<close> deletes the first occurrence of \<open>x\<close> and raises \<^verbatim>\<open>ValueError\<close>
  when there is none; the exception leaves the function before the commit.
\<close>

definition remove_coin_from_user ::
  "'n db \<Rightarrow> nat \<Rightarrow> nat \<Rightarrow> 'n db \<times> (py_exception + (nat \<times> nat) option)" where
  "remove_coin_from_user db user_id cid =
     (let user = first (filter (\<lambda>u. u_id u = user_id) (users db));
          coin = first (filter (\<lambda>c. c_id c = cid) (coins db))
      in case (user, coin) of
           (Some user, Some coin) \<Rightarrow>
             (let original = user_coins_of db user
              in if coin \<notin> set original then (db, Inl ValueError)
                 else (flush_user_coins db user original (remove1 coin original),
                       Inr (Some (user_id, cid))))
         | _ \<Rightarrow> (db, Inr None))"

section \<open>Watchlist endpoints (main.py)\<close>


definition main_remove_coin_from_user ::
  "nat \<Rightarrow> User \<Rightarrow> 'n db \<Rightarrow> 'n db \<times> (raised + string \<times> string)" where
  "main_remove_coin_from_user cid current_user db =
     (case remove_coin_from_user db (u_id current_user) cid of
        (db', Inl e) \<Rightarrow> (db', Inl (Uncaught e))
      | (db', Inr None) \<Rightarrow>
          (db', Inl (HTTPException 404
                       (Msg ''Coin not found or not in user's tracking list'')))
      | (db', Inr (Some result)) \<Rightarrow>
          (db', Inr (''success'', ''Coin removed from user's tracking list'')))"

section \<open>Coin and price operations (crud.py)\<close>

definition get_coin_by_name :: "'n db \<Rightarrow> string \<Rightarrow> Coin option" where
  "get_coin_by_name db nm = first (filter (\<lambda>c. name c = nm) (coins db))"

text \<open>\<^verbatim>\<open>name\<close> and \<^verbatim>\<open>symbol\<close> are unique columns of \<^verbatim>\<open>coins\<close>.\<close>

definition create_coin :: "'n db \<Rightarrow> CoinCreate \<Rightarrow> 'n db \<times> (py_exception + Coin)" where
  "create_coin db coin =
     (let db_coin = \<lparr>c_id = next_id (map c_id (coins db)),
                     name = cc_name coin,
                     symbol = cc_symbol coin\<rparr>
      in if cc_name coin \<in> set (map name (coins db))
            \<or> cc_symbol coin \<in> set (map symbol (coins db))
         then (db, Inl IntegrityError)
         else (db\<lparr>coins := coins db @ [db_coin]\<rparr>, Inr db_coin))"

definition add_price ::
  "'n db \<Rightarrow> Coin \<Rightarrow> 'n json \<Rightarrow> time \<Rightarrow> 'n db \<times> 'n PriceHistory" where
  "add_price db coin p now =
     (let db_price = \<lparr>ph_id = next_id (map ph_id (price_history db)),
                      coin_id = c_id coin,
                      price = p,
                      volume_24h = None,
                      change_24h = None,
                      market_cap = None,
                      timestamp = now\<rparr>
      in (db\<lparr>price_history := price_history db @ [db_price]\<rparr>, db_price))"

text \<open>
  \<^verbatim>\<open>order_by(PriceHistory.timestamp.desc())\<close> is done by the storage engine.  SQL fixes
  the result up to the order of rows with equal timestamps, so the engine's ordering
  is a parameter \<open>order_desc\<close> of every query that uses it, and \<open>sql_order_desc\<close>
  states what may be assumed of it.
\<close>

definition newest_first :: "'n PriceHistory list \<Rightarrow> bool" where
  "newest_first rows = sorted_wrt (\<lambda>a b. timestamp b \<le> timestamp a) rows"

definition sql_order_desc :: "('n PriceHistory list \<Rightarrow> 'n PriceHistory list) \<Rightarrow> bool" where
  "sql_order_desc order_desc =
     (\<forall>rows. mset (order_desc rows) = mset rows \<and> newest_first (order_desc rows))"

text \<open>Two orderings that differ on equal timestamps: oldest row first, newest row first.\<close>

definition order_desc_stable :: "'n PriceHistory list \<Rightarrow> 'n PriceHistory list" where
  "order_desc_stable rows = sort_key (\<lambda>r. - timestamp r) rows"

definition order_desc_last :: "'n PriceHistory list \<Rightarrow> 'n PriceHistory list" where
  "order_desc_last rows = rev (sort_key timestamp rows)"

record 'n Quote =
  q_name :: string
  q_symbol :: string
  q_price :: "'n json"
  q_timestamp :: time

fun latest_loop ::
  "('n PriceHistory list \<Rightarrow> 'n PriceHistory list) \<Rightarrow> 'n db \<Rightarrow> Coin list \<Rightarrow> 'n Quote list
     \<Rightarrow> 'n Quote list" where
  "latest_loop order_desc db [] result = result"
| "latest_loop order_desc db (coin # rest) result =
     (case first (order_desc (filter (\<lambda>p. coin_id p = c_id coin) (price_history db))) of
        None \<Rightarrow> latest_loop order_desc db rest result
      | Some latest \<Rightarrow>
          latest_loop order_desc db rest
            (result @ [\<lparr>q_name = name coin, q_symbol = symbol coin,
                        q_price = price latest, q_timestamp = timestamp latest\<rparr>]))"

definition get_latest_prices ::
  "('n PriceHistory list \<Rightarrow> 'n PriceHistory list) \<Rightarrow> 'n db \<Rightarrow> 'n Quote list" where
  "get_latest_prices order_desc db = latest_loop order_desc db (coins db) []"

definition get_price_history ::
  "('n PriceHistory list \<Rightarrow> 'n PriceHistory list) \<Rightarrow> 'n db \<Rightarrow> string
     \<Rightarrow> 'n PriceHistory list" where
  "get_price_history order_desc db coin_name =
     (case get_coin_by_name db coin_name of
        None \<Rightarrow> []
      | Some coin \<Rightarrow> order_desc (filter (\<lambda>p. coin_id p = c_id coin) (price_history db)))"

definition get_user_price_history ::
  "('n PriceHistory list \<Rightarrow> 'n PriceHistory list) \<Rightarrow> 'n db \<Rightarrow> nat \<Rightarrow> string
     \<Rightarrow> 'n PriceHistory list" where
  "get_user_price_history order_desc db user_id coin_name =
     (case first (filter (\<lambda>u. u_id u = user_id) (users db)) of
        None \<Rightarrow> []
      | Some user \<Rightarrow>
          (case get_coin_by_name db coin_name of
             None \<Rightarrow> []
           | Some coin \<Rightarrow>
               if coin \<notin> set (user_coins_of db user) then []
               else order_desc (filter (\<lambda>p. coin_id p = c_id coin) (price_history db))))"

section \<open>Price endpoints (main.py)\<close>

definition main_get_price_history ::
  "('n PriceHistory list \<Rightarrow> 'n PriceHistory list) \<Rightarrow> string \<Rightarrow> 'n db
     \<Rightarrow> raised + 'n PriceHistory list" where
  "main_get_price_history order_desc coin_name db =
     (let history = get_price_history order_desc db coin_name
      in if history = [] then Inl (HTTPException 404 (Msg ''Coin not found or no price history''))
         else Inr history)"

definition main_get_user_price_history ::
  "('n PriceHistory list \<Rightarrow> 'n PriceHistory list) \<Rightarrow> string \<Rightarrow> User \<Rightarrow> 'n db
     \<Rightarrow> raised + 'n PriceHistory list" where
  "main_get_user_price_history order_desc coin_name current_user db =
     (let history = get_user_price_history order_desc db (u_id current_user) coin_name
      in if history = []
         then Inl (HTTPException 404
                     (Msg ''Coin not found, not tracked by user, or no price history''))
         else Inr history)"

section \<open>Price synchronisation (main.py)\<close>

record CoinConfig =
  cfg_name :: string
  cfg_symbol :: string
  cfg_id :: string

definition COINS :: "CoinConfig list" where
  "COINS =
     [\<lparr>cfg_name = ''Bitcoin'', cfg_symbol = ''btc'', cfg_id = ''bitcoin''\<rparr>,
      \<lparr>cfg_name = ''Ethereum'', cfg_symbol = ''eth'', cfg_id = ''ethereum''\<rparr>,
      \<lparr>cfg_name = ''Cardano'', cfg_symbol = ''ada'', cfg_id = ''cardano''\<rparr>,
      \<lparr>cfg_name = ''Solana'', cfg_symbol = ''sol'', cfg_id = ''solana''\<rparr>,
      \<lparr>cfg_name = ''Binance Coin'', cfg_symbol = ''bnb'', cfg_id = ''binancecoin''\<rparr>,
      \<lparr>cfg_name = ''XRP'', cfg_symbol = ''xrp'', cfg_id = ''ripple''\<rparr>,
      \<lparr>cfg_name = ''Polkadot'', cfg_symbol = ''dot'', cfg_id = ''polkadot''\<rparr>,
      \<lparr>cfg_name = ''Dogecoin'', cfg_symbol = ''doge'', cfg_id = ''dogecoin''\<rparr>,
      \<lparr>cfg_name = ''Avalanche'', cfg_symbol = ''avax'', cfg_id = ''avalanche-2''\<rparr>,
      \<lparr>cfg_name = ''Chainlink'', cfg_symbol = ''link'', cfg_id = ''chainlink''\<rparr>]"

text \<open>Python's truth value of a decoded JSON value (\<^verbatim>\<open>not x\<close> is its negation).\<close>

fun py_truthy :: "'n::zero json \<Rightarrow> bool" where
  "py_truthy JNull = False"
| "py_truthy (JBool b) = b"
| "py_truthy (JNum n) = (n \<noteq> 0)"
| "py_truthy (JStr s) = (s \<noteq> [])"
| "py_truthy (JList l) = (l \<noteq> [])"
| "py_truthy (JDict d) = (d \<noteq> [])"

text \<open>\<^verbatim>\<open>obj.get(key, default)\<close>: only a \<^verbatim>\<open>dict\<close> has the method.\<close>

fun py_get :: "'n json \<Rightarrow> string \<Rightarrow> 'n json \<Rightarrow> py_exception + 'n json" where
  "py_get (JDict d) key dflt = Inr (case map_of d key of None \<Rightarrow> dflt | Some v \<Rightarrow> v)"
| "py_get obj key dflt = Inl AttributeError"

definition substring :: "string \<Rightarrow> string \<Rightarrow> bool" where
  "substring s t = list_ex (\<lambda>i. take (length s) (drop i t) = s) [0..<Suc (length t)]"

text \<open>
  \<^verbatim>\<open>key in obj\<close> for a string \<open>key\<close>: a key of a \<^verbatim>\<open>dict\<close>, a substring of a \<^verbatim>\<open>str\<close>,
  an element of a \<^verbatim>\<open>list\<close>; any other operand is not iterable.
\<close>

fun py_in :: "string \<Rightarrow> 'n json \<Rightarrow> py_exception + bool" where
  "py_in key (JDict d) = Inr (key \<in> set (map fst d))"
| "py_in key (JStr s) = Inr (substring key s)"
| "py_in key (JList l) = Inr (JStr key \<in> set l)"
| "py_in key obj = Inl TypeError"

definition py_not_in :: "string \<Rightarrow> 'n json \<Rightarrow> py_exception + bool" where
  "py_not_in key obj = (case py_in key obj of Inl e \<Rightarrow> Inl e | Inr b \<Rightarrow> Inr (\<not> b))"

record 'n Response =
  status_code :: nat
  body_text :: string
  body_json :: "'n json option"

record 'n UpdateResult =
  r_status :: string
  r_data :: "'n Quote list"
  r_count :: nat

text \<open>
  The loop over \<^verbatim>\<open>COINS\<close> inside the \<^verbatim>\<open>try\<close> block.  Every insert is committed on
  its own, so an exception in a later round leaves the earlier writes in place: the
  database is returned next to the exception.  \<open>clock 0\<close> is the next reading of
  \<^verbatim>\<open>datetime.utcnow\<close> (the column default of the inserted row), \<open>clock \<circ> Suc\<close> the
  readings after it.  \<open>q_timestamp\<close> stands for the ISO text of the row's timestamp.
\<close>

fun update_loop ::
  "(nat \<Rightarrow> time) \<Rightarrow> 'n::zero json \<Rightarrow> CoinConfig list \<Rightarrow> 'n db \<Rightarrow> 'n Quote list
     \<Rightarrow> 'n db \<times> (py_exception + 'n Quote list)" where
  "update_loop clock prices [] db results = (db, Inr results)"
| "update_loop clock prices (coin # rest) db results =
     (case py_get prices (cfg_id coin) (JDict []) of
        Inl e \<Rightarrow> (db, Inl e)
      | Inr price_data \<Rightarrow>
          (case (if \<not> py_truthy price_data then Inr True
                 else py_not_in ''usd'' price_data) of
             Inl e \<Rightarrow> (db, Inl e)
           | Inr True \<Rightarrow> update_loop clock prices rest db results
           | Inr False \<Rightarrow>
               (case py_get price_data ''usd'' JNull of
                  Inl e \<Rightarrow> (db, Inl e)
                | Inr p \<Rightarrow>
                    (case (case get_coin_by_name db (cfg_name coin) of
                             Some db_coin \<Rightarrow> (db, Inr db_coin)
                           | None \<Rightarrow>
                               create_coin db \<lparr>cc_name = cfg_name coin,
                                               cc_symbol = cfg_symbol coin\<rparr>) of
                       (db1, Inl e) \<Rightarrow> (db1, Inl e)
                     | (db1, Inr db_coin) \<Rightarrow>
                         (case add_price db1 db_coin p (clock 0) of
                            (db2, price_entry) \<Rightarrow>
                              update_loop (clock \<circ> Suc) prices rest db2
                                (results @ [\<lparr>q_name = cfg_name coin,
                                             q_symbol = cfg_symbol coin,
                                             q_price = price price_entry,
                                             q_timestamp = timestamp price_entry\<rparr>]))))))"

text \<open>
  The endpoint.  \<open>fetched\<close> is the outcome of \<^verbatim>\<open>requests.get\<close>: an exception or a
  response; \<open>body_json\<close> is \<open>None\<close> when the body does not decode.
\<close>

definition update_prices ::
  "(py_exception + 'n::zero Response) \<Rightarrow> (nat \<Rightarrow> time) \<Rightarrow> 'n db
     \<Rightarrow> 'n db \<times> (raised + 'n UpdateResult)" where
  "update_prices fetched clock db =
     (let unexpected =
            (\<lambda>e. HTTPException 500 (MsgExc ''An error occurred while updating prices: '' e))
      in case fetched of
           Inl e \<Rightarrow> (db, Inl (unexpected e))
         | Inr response \<Rightarrow>
             if status_code response \<noteq> 200
             then (db, Inl (HTTPException 502
                              (Msg (''Failed to fetch from CoinGecko: '' @ body_text response))))
             else
               (case body_json response of
                  None \<Rightarrow> (db, Inl (unexpected JSONDecodeError))
                | Some prices \<Rightarrow>
                    (case update_loop clock prices COINS db [] of
                       (db', Inl e) \<Rightarrow> (db', Inl (unexpected e))
                     | (db', Inr results) \<Rightarrow>
                         (db', Inr \<lparr>r_status = ''success'', r_data = results,
                                    r_count = length results\<rparr>))))"

section \<open>Notions for stating the price synchronisation\<close>

text \<open>
  \<open>feed_quote\<close> is the \<^verbatim>\<open>usd\<close> field of a catalog coin in the decoded feed response,
  when the response is an object that maps the coin's feed identifier to an object
  with that field.
\<close>

definition feed_quote :: "'n json \<Rightarrow> CoinConfig \<Rightarrow> 'n json option" where
  "feed_quote prices coin =
     (case prices of
        JDict d \<Rightarrow>
          (case map_of d (cfg_id coin) of
             Some (JDict q) \<Rightarrow> map_of q ''usd''
           | _ \<Rightarrow> None)
      | _ \<Rightarrow> None)"

text \<open>
  The shape of a feed response: an object in which the entry of every catalog coin,
  where there is one, is an object whose \<^verbatim>\<open>usd\<close> field, where there is one, is a number.
\<close>

definition feed_well_formed :: "'n json \<Rightarrow> CoinConfig list \<Rightarrow> bool" where
  "feed_well_formed prices catalog =
     (case prices of
        JDict d \<Rightarrow>
          list_all
            (\<lambda>coin. case map_of d (cfg_id coin) of
                      None \<Rightarrow> True
                    | Some (JDict q) \<Rightarrow>
                        (case map_of q ''usd'' of
                           None \<Rightarrow> True
                         | Some (JNum n) \<Rightarrow> True
                         | Some _ \<Rightarrow> False)
                    | Some _ \<Rightarrow> False)
            catalog
      | _ \<Rightarrow> False)"

text \<open>
  Stored coins agree with the catalog: a stored coin that carries the symbol of a
  catalog entry carries the name of that entry.  Coins are only ever created from the
  catalog, which keeps this true.
\<close>

definition catalog_consistent :: "CoinConfig list \<Rightarrow> 'n db \<Rightarrow> bool" where
  "catalog_consistent catalog db =
     list_all (\<lambda>c. list_all (\<lambda>cfg. symbol c \<noteq> cfg_symbol cfg \<or> name c = cfg_name cfg) catalog)
              (coins db)"

text \<open>The get-or-create step of the loop when the insert meets no uniqueness conflict.\<close>

definition upsert_coin :: "'n db \<Rightarrow> string \<Rightarrow> string \<Rightarrow> 'n db \<times> Coin" where
  "upsert_coin db nm symb =
     (case get_coin_by_name db nm of
        Some db_coin \<Rightarrow> (db, db_coin)
      | None \<Rightarrow>
          (let db_coin = \<lparr>c_id = next_id (map c_id (coins db)), name = nm, symbol = symb\<rparr>
           in (db\<lparr>coins := coins db @ [db_coin]\<rparr>, db_coin)))"

definition quote_of :: "CoinConfig \<Rightarrow> 'n PriceHistory \<Rightarrow> 'n Quote" where
  "quote_of coin row =
     \<lparr>q_name = cfg_name coin, q_symbol = cfg_symbol coin,
      q_price = price row, q_timestamp = timestamp row\<rparr>"

text \<open>
  What a run over the catalog coins \<open>updated\<close> has done to the store: users and
  watchlists are as before; the coins are the old ones followed by one new coin, with
  the catalog's name and symbol, for each updated coin whose name was not stored; the
  ledger is the old one followed by one
  observation per updated coin, in catalog order, each carrying that coin's quoted
  price and the identifier of the stored coin of that name; the quotes returned are
  built from these observations; identifiers stay unique.
\<close>

definition sync_outcome ::
  "'n json \<Rightarrow> CoinConfig list \<Rightarrow> 'n db \<Rightarrow> 'n db \<Rightarrow> 'n Quote list \<Rightarrow> bool" where
  "sync_outcome prices updated db db' quotes \<longleftrightarrow>
     users db' = users db \<and> user_coins db' = user_coins db
     \<and> (\<exists>new_coins new_rows.
           coins db' = coins db @ new_coins
         \<and> map (\<lambda>c. (name c, symbol c)) new_coins
             = map (\<lambda>cfg. (cfg_name cfg, cfg_symbol cfg))
                 (filter (\<lambda>cfg. cfg_name cfg \<notin> name ` set (coins db)) updated)
         \<and> price_history db' = price_history db @ new_rows
         \<and> list_all2
              (\<lambda>coin row. feed_quote prices coin = Some (price row)
                 \<and> (\<exists>c. get_coin_by_name db' (cfg_name coin) = Some c \<and> coin_id row = c_id c))
              updated new_rows
         \<and> quotes = map2 quote_of updated new_rows)
     \<and> (distinct (map c_id (coins db)) \<longrightarrow> distinct (map c_id (coins db')))"

section \<open>Sample data\<close>

text \<open>A small store used to run the operations on concrete inputs.\<close>

definition alice :: User where
  "alice = \<lparr>u_id = 1, username = ''alice'', email = ''alice@example.com'',
            hashed_password = ''h:secret'', created_at = 100\<rparr>"

definition bitcoin :: Coin where
  "bitcoin = \<lparr>c_id = 1, name = ''Bitcoin'', symbol = ''btc''\<rparr>"

definition ethereum :: Coin where
  "ethereum = \<lparr>c_id = 2, name = ''Ethereum'', symbol = ''eth''\<rparr>"

definition observation :: "nat \<Rightarrow> nat \<Rightarrow> int \<Rightarrow> time \<Rightarrow> int PriceHistory" where
  "observation i c p t =
     \<lparr>ph_id = i, coin_id = c, price = JNum p, volume_24h = None, change_24h = None,
      market_cap = None, timestamp = t\<rparr>"

definition sample_db :: "int db" where
  "sample_db =
     \<lparr>users = [alice],
      coins = [bitcoin, ethereum],
      user_coins = [(1, 1)],
      price_history = [observation 1 1 50000 200, observation 2 2 3000 200]\<rparr>"

definition sample_hash :: "string \<Rightarrow> string" where
  "sample_hash pw = ''h:'' @ pw"

definition sample_verify :: "string \<Rightarrow> string \<Rightarrow> bool" where
  "sample_verify pw h = (h = sample_hash pw)"

text \<open>A feed response with a quote for Bitcoin and Solana and an empty entry for Cardano.\<close>

definition sample_feed :: "int Response" where
  "sample_feed =
     \<lparr>status_code = 200,
      body_text = ''{...}'',
      body_json = Some (JDict [(''bitcoin'', JDict [(''usd'', JNum 50000)]),
                               (''cardano'', JDict []),
                               (''solana'', JDict [(''usd'', JNum 150)])])\<rparr>"

text \<open>
  Two answers with status 200 outside that shape: one whose Ethereum entry is a number
  instead of an object, one whose Bitcoin entry carries a null \<^verbatim>\<open>usd\<close> field.
\<close>

definition number_entry_feed :: "int Response" where
  "number_entry_feed =
     \<lparr>status_code = 200,
      body_text = ''{...}'',
      body_json = Some (JDict [(''bitcoin'', JDict [(''usd'', JNum 50000)]),
                               (''ethereum'', JNum 5)])\<rparr>"

definition null_price_feed :: "int Response" where
  "null_price_feed =
     \<lparr>status_code = 200,
      body_text = ''{...}'',
      body_json = Some (JDict [(''bitcoin'', JDict [(''usd'', JNull)])])\<rparr>"

definition tie_db :: "int db" where
  "tie_db =
     \<lparr>users = [],
      coins = [bitcoin],
      user_coins = [],
      price_history = [observation 1 1 50000 200, observation 2 1 51000 200]\<rparr>"

text \<open>
  Notions used to state what the latest-price query returns: a coin has history when
  some observation refers to it; a quote is the latest of a coin when it carries the
  coin's name and symbol and the price and timestamp of one observation of that coin
  that no observation of the coin exceeds in time.
\<close>

definition has_history :: "'n db \<Rightarrow> Coin \<Rightarrow> bool" where
  "has_history db coin \<longleftrightarrow> (\<exists>r \<in> set (price_history db). coin_id r = c_id coin)"

definition latest_of :: "'n db \<Rightarrow> Coin \<Rightarrow> 'n Quote \<Rightarrow> bool" where
  "latest_of db coin q \<longleftrightarrow>
     q_name q = name coin \<and> q_symbol q = symbol coin
     \<and> (\<exists>r \<in> set (price_history db).
           coin_id r = c_id coin \<and> q_price q = price r \<and> q_timestamp q = timestamp r
           \<and> (\<forall>r' \<in> set (price_history db).
                 coin_id r' = c_id coin \<longrightarrow> timestamp r' \<le> timestamp r))"

section \<open>Lookup facts\<close>

lemma first_None_iff: "first rows = None \<longleftrightarrow> rows = []"
  by (cases rows) (simp_all add: first_def)

lemma first_filter_None: "first (filter P rows) = None \<longleftrightarrow> (\<forall>r \<in> set rows. \<not> P r)"
  by (simp add: first_None_iff filter_empty_conv)

lemma first_filter_Some: "first (filter P rows) = Some r \<Longrightarrow> r \<in> set rows \<and> P r"
proof -
  assume h: "first (filter P rows) = Some r"
  then obtain rest where "filter P rows = r # rest"
    by (cases "filter P rows") (simp_all add: first_def)
  then have "r \<in> set (filter P rows)" by simp
  then show ?thesis by simp
qed

lemma get_user_by_username_None:
  "get_user_by_username db uname = None \<longleftrightarrow> uname \<notin> username ` set (users db)"
  by (auto simp: get_user_by_username_def first_filter_None)

lemma get_user_by_email_None:
  "get_user_by_email db mail = None \<longleftrightarrow> mail \<notin> email ` set (users db)"
  by (auto simp: get_user_by_email_def first_filter_None)

lemma get_user_by_username_Some:
  "get_user_by_username db uname = Some u \<Longrightarrow> u \<in> set (users db) \<and> username u = uname"
  unfolding get_user_by_username_def by (rule first_filter_Some)

lemma fold_max_ge: "(x::nat) \<in> set xs \<Longrightarrow> x \<le> fold max xs a"
proof (induction xs arbitrary: a)
  case Nil
  then show ?case by simp
next
  case (Cons y ys)
  have mono: "\<And>b. b \<le> fold max ys b"
  proof -
    fix b :: nat
    show "b \<le> fold max ys b"
      by (induction ys arbitrary: b) (auto intro: order_trans [OF max.cobounded2])
  qed
  show ?case
  proof (cases "x = y")
    case True
    have "y \<le> max y a" by simp
    also have "\<dots> \<le> fold max ys (max y a)" by (rule mono)
    finally show ?thesis using True by simp
  next
    case False
    with Cons.prems have "x \<in> set ys" by simp
    then show ?thesis using Cons.IH by simp
  qed
qed

lemma next_id_fresh: "next_id ids \<notin> set ids"
proof
  assume "next_id ids \<in> set ids"
  then have "next_id ids \<le> fold max ids 0" by (rule fold_max_ge)
  then show False by (simp add: next_id_def)
qed

lemma first_filter_distinct:
  assumes "distinct (map f rows)" and "r \<in> set rows"
  shows "first (filter (\<lambda>x. f x = f r) rows) = Some r"
  using assms
proof (induction rows)
  case Nil
  then show ?case by simp
next
  case (Cons x xs)
  show ?case
  proof (cases "x = r")
    case True
    then show ?thesis by (simp add: first_def)
  next
    case False
    with Cons.prems have rin: "r \<in> set xs" by simp
    with Cons.prems have "f x \<noteq> f r" by auto
    with Cons.IH Cons.prems rin show ?thesis by simp
  qed
qed

lemma first_filter_ex:
  "k \<in> f ` set rows \<Longrightarrow> \<exists>r. first (filter (\<lambda>x. f x = k) rows) = Some r"
  by (cases "first (filter (\<lambda>x. f x = k) rows)") (auto simp: first_filter_None)

lemma create_user_fresh:
  assumes "uc_username user \<notin> username ` set (users db)"
    and "uc_email user \<notin> email ` set (users db)"
  shows "create_user get_password_hash now db user =
           (db\<lparr>users := users db @
                  [\<lparr>u_id = next_id (map u_id (users db)),
                    username = uc_username user,
                    email = uc_email user,
                    hashed_password = get_password_hash (uc_password user),
                    created_at = now\<rparr>]\<rparr>,
            Inr \<lparr>u_id = next_id (map u_id (users db)),
                 username = uc_username user,
                 email = uc_email user,
                 hashed_password = get_password_hash (uc_password user),
                 created_at = now\<rparr>)"
  using assms by (simp add: create_user_def Let_def)

section \<open>Watchlist facts\<close>

lemma user_coins_of_mem:
  "c \<in> set (user_coins_of db user)
     \<longleftrightarrow> c \<in> set (coins db) \<and> (u_id user, c_id c) \<in> set (user_coins db)"
  by (auto simp: user_coins_of_def split: if_splits)





lemma sql_order_desc_Nil: "sql_order_desc od \<Longrightarrow> od [] = []"
proof -
  assume "sql_order_desc od"
  then have "mset (od []) = mset []" unfolding sql_order_desc_def by blast
  then show ?thesis by simp
qed

lemmas sample_defs = sample_db_def alice_def bitcoin_def ethereum_def observation_def
  sample_hash_def sample_verify_def

section \<open>Registration and authentication\<close>

text \<open>
  C6.  Registration answers 400 when the username or the email is already taken.
  Otherwise it stores one new user carrying the hash of the password, an identifier
  that no stored user has, and the creation time, and returns that user; any later
  registration under the same username is answered 400 ``Username already registered''.
\<close>

theorem register_user_outcomes:
  "(uc_username user \<in> username ` set (users db) \<or> uc_email user \<in> email ` set (users db)
      \<longrightarrow> (\<exists>d. register_user get_password_hash now user db = (db, Inl (HTTPException 400 d))))
   \<and> (uc_username user \<notin> username ` set (users db) \<and> uc_email user \<notin> email ` set (users db)
      \<longrightarrow> (let new_user = \<lparr>u_id = next_id (map u_id (users db)),
                             username = uc_username user,
                             email = uc_email user,
                             hashed_password = get_password_hash (uc_password user),
                             created_at = now\<rparr>;
                db' = db\<lparr>users := users db @ [new_user]\<rparr>
            in register_user get_password_hash now user db = (db', Inr new_user)
               \<and> u_id new_user \<notin> u_id ` set (users db)
               \<and> (\<forall>again now'. uc_username again = uc_username user
                     \<longrightarrow> register_user get_password_hash now' again db'
                           = (db', Inl (HTTPException 400
                                          (Msg ''Username already registered''))))))"
proof (intro conjI impI)
  assume dup: "uc_username user \<in> username ` set (users db)
               \<or> uc_email user \<in> email ` set (users db)"
  show "\<exists>d. register_user get_password_hash now user db = (db, Inl (HTTPException 400 d))"
  proof (cases "get_user_by_username db (uc_username user)")
    case (Some u)
    then show ?thesis by (simp add: register_user_def)
  next
    case None
    then have "uc_username user \<notin> username ` set (users db)"
      by (simp add: get_user_by_username_None)
    with dup have "uc_email user \<in> email ` set (users db)" by simp
    then obtain u where "get_user_by_email db (uc_email user) = Some u"
      by (cases "get_user_by_email db (uc_email user)") (auto simp: get_user_by_email_None)
    with None show ?thesis by (simp add: register_user_def)
  qed
next
  assume fresh: "uc_username user \<notin> username ` set (users db)
                 \<and> uc_email user \<notin> email ` set (users db)"
  define new_user where "new_user = \<lparr>u_id = next_id (map u_id (users db)),
                             username = uc_username user,
                             email = uc_email user,
                             hashed_password = get_password_hash (uc_password user),
                             created_at = now\<rparr>"
  define db' where "db' = db\<lparr>users := users db @ [new_user]\<rparr>"
  have n1: "get_user_by_username db (uc_username user) = None"
    using fresh by (simp add: get_user_by_username_None)
  have n2: "get_user_by_email db (uc_email user) = None"
    using fresh by (simp add: get_user_by_email_None)
  have reg: "register_user get_password_hash now user db = (db', Inr new_user)"
    using fresh n1 n2
    by (simp add: register_user_def create_user_fresh new_user_def db'_def)
  have idf: "u_id new_user \<notin> u_id ` set (users db)"
    using next_id_fresh [of "map u_id (users db)"] by (simp add: new_user_def)
  have again: "register_user get_password_hash now' again db'
                 = (db', Inl (HTTPException 400 (Msg ''Username already registered'')))"
    if "uc_username again = uc_username user" for again now'
  proof -
    have "uc_username again \<in> username ` set (users db')"
      using that by (simp add: db'_def new_user_def)
    then obtain u where "get_user_by_username db' (uc_username again) = Some u"
      by (cases "get_user_by_username db' (uc_username again)")
         (auto simp: get_user_by_username_None)
    then show ?thesis by (simp add: register_user_def)
  qed
  show "let new_user = \<lparr>u_id = next_id (map u_id (users db)),
                             username = uc_username user,
                             email = uc_email user,
                             hashed_password = get_password_hash (uc_password user),
                             created_at = now\<rparr>;
                db' = db\<lparr>users := users db @ [new_user]\<rparr>
            in register_user get_password_hash now user db = (db', Inr new_user)
               \<and> u_id new_user \<notin> u_id ` set (users db)
               \<and> (\<forall>again now'. uc_username again = uc_username user
                     \<longrightarrow> register_user get_password_hash now' again db'
                           = (db', Inl (HTTPException 400
                                          (Msg ''Username already registered''))))"
    unfolding Let_def new_user_def [symmetric] db'_def [symmetric]
    using reg idf again by blast
qed

theorem register_user_outcomes_witness:
  "register_user sample_hash 300
     \<lparr>uc_username = ''bob'', uc_email = ''bob@example.com'', uc_password = ''pw''\<rparr> sample_db
   = (sample_db\<lparr>users := [alice, \<lparr>u_id = 2, username = ''bob'', email = ''bob@example.com'',
                                    hashed_password = ''h:pw'', created_at = 300\<rparr>]\<rparr>,
      Inr \<lparr>u_id = 2, username = ''bob'', email = ''bob@example.com'',
           hashed_password = ''h:pw'', created_at = 300\<rparr>)
   \<and> register_user sample_hash 400
        \<lparr>uc_username = ''bob'', uc_email = ''other@example.com'', uc_password = ''pw2''\<rparr>
        (fst (register_user sample_hash 300
          \<lparr>uc_username = ''bob'', uc_email = ''bob@example.com'', uc_password = ''pw''\<rparr>
          sample_db))
      = (fst (register_user sample_hash 300
          \<lparr>uc_username = ''bob'', uc_email = ''bob@example.com'', uc_password = ''pw''\<rparr>
          sample_db),
         Inl (HTTPException 400 (Msg ''Username already registered'')))"
  using register_user_outcomes
    [of "\<lparr>uc_username = ''bob'', uc_email = ''bob@example.com'', uc_password = ''pw''\<rparr>"
        sample_db sample_hash 300]
  by (simp add: sample_defs Let_def next_id_def)

text \<open>
  C7.  With unique usernames, authentication returns the stored user whose username
  matches when the password verifies against that user's hash; it returns the one
  failure value \<open>None\<close> both when no user has the username and when the password
  does not verify.
\<close>

theorem authenticate_user_outcomes:
  assumes "distinct (map username (users db))"
  shows "(\<forall>u \<in> set (users db). username u = uname \<and> verify_password pw (hashed_password u)
            \<longrightarrow> authenticate_user verify_password db uname pw = Some u)
       \<and> (uname \<notin> username ` set (users db)
            \<longrightarrow> authenticate_user verify_password db uname pw = None)
       \<and> (\<forall>u \<in> set (users db). username u = uname \<and> \<not> verify_password pw (hashed_password u)
            \<longrightarrow> authenticate_user verify_password db uname pw = None)"
proof -
  have found: "get_user_by_username db uname = Some u"
    if "u \<in> set (users db)" "username u = uname" for u
    using first_filter_distinct [OF assms that(1)] that(2)
    by (simp add: get_user_by_username_def)
  have missing: "get_user_by_username db uname = None" if "uname \<notin> username ` set (users db)"
    using that by (simp add: get_user_by_username_None)
  show ?thesis
    by (auto simp: authenticate_user_def found missing)
qed

theorem authenticate_user_outcomes_witness:
  "distinct (map username (users sample_db))
   \<and> authenticate_user sample_verify sample_db ''alice'' ''secret'' = Some alice
   \<and> authenticate_user sample_verify sample_db ''alice'' ''wrong'' = None
   \<and> authenticate_user sample_verify sample_db ''bob'' ''secret'' = None"
  using authenticate_user_outcomes [of sample_db "''alice''" sample_verify "''secret''"]
    authenticate_user_outcomes [of sample_db "''alice''" sample_verify "''wrong''"]
    authenticate_user_outcomes [of sample_db "''bob''" sample_verify "''secret''"]
  by (simp add: sample_defs)

text \<open>
  C10.  When the username and the email both collide with stored users, registration
  reports the username: the detail is ``Username already registered''.
\<close>

theorem register_user_username_first:
  assumes "uc_username user \<in> username ` set (users db)"
    and "uc_email user \<in> email ` set (users db)"
  shows "register_user get_password_hash now user db
           = (db, Inl (HTTPException 400 (Msg ''Username already registered'')))"
proof -
  from assms(1) obtain u where "get_user_by_username db (uc_username user) = Some u"
    by (cases "get_user_by_username db (uc_username user)")
       (auto simp: get_user_by_username_None)
  then show ?thesis by (simp add: register_user_def)
qed

theorem register_user_username_first_witness:
  "uc_username \<lparr>uc_username = ''alice'', uc_email = ''alice@example.com'', uc_password = ''x''\<rparr>
     \<in> username ` set (users sample_db)
   \<and> uc_email \<lparr>uc_username = ''alice'', uc_email = ''alice@example.com'', uc_password = ''x''\<rparr>
     \<in> email ` set (users sample_db)
   \<and> register_user sample_hash 300
        \<lparr>uc_username = ''alice'', uc_email = ''alice@example.com'', uc_password = ''x''\<rparr>
        sample_db
      = (sample_db, Inl (HTTPException 400 (Msg ''Username already registered'')))"
  using register_user_username_first
    [of "\<lparr>uc_username = ''alice'', uc_email = ''alice@example.com'', uc_password = ''x''\<rparr>"
        sample_db sample_hash 300]
  by (simp add: sample_defs)

section \<open>Watchlist\<close>



text \<open>
  C2.  Removing a coin that exists but is not on the watchlist of an existing user:
  \<^verbatim>\<open>list.remove\<close> raises \<^verbatim>\<open>ValueError\<close>, which nothing catches, so the endpoint
  does not answer 404.
\<close>

theorem remove_coin_untracked_raises:
  assumes "u_id current_user \<in> u_id ` set (users db)"
    and "cid \<in> c_id ` set (coins db)"
    and "(u_id current_user, cid) \<notin> set (user_coins db)"
  shows "main_remove_coin_from_user cid current_user db = (db, Inl (Uncaught ValueError))"
proof -
  from assms(1) obtain user
    where u: "first (filter (\<lambda>u. u_id u = u_id current_user) (users db)) = Some user"
    using first_filter_ex [of "u_id current_user" u_id "users db"] by auto
  from assms(2) obtain coin
    where c: "first (filter (\<lambda>c. c_id c = cid) (coins db)) = Some coin"
    using first_filter_ex [of cid c_id "coins db"] by auto
  from first_filter_Some [OF u] have uu: "u_id user = u_id current_user" by simp
  from first_filter_Some [OF c] have cc: "c_id coin = cid" by simp
  have "coin \<notin> set (user_coins_of db user)"
    using uu cc assms(3) by (simp add: user_coins_of_mem)
  then have "remove_coin_from_user db (u_id current_user) cid = (db, Inl ValueError)"
    using u c by (simp add: remove_coin_from_user_def Let_def)
  then show ?thesis by (simp add: main_remove_coin_from_user_def)
qed

theorem remove_coin_untracked_raises_witness:
  "u_id alice \<in> u_id ` set (users sample_db)
   \<and> 2 \<in> c_id ` set (coins sample_db)
   \<and> (u_id alice, 2) \<notin> set (user_coins sample_db)
   \<and> main_remove_coin_from_user 2 alice sample_db = (sample_db, Inl (Uncaught ValueError))
   \<and> response_status (Uncaught ValueError) = 500"
  using remove_coin_untracked_raises [of alice sample_db 2]
  by (simp add: sample_defs)

section \<open>Price synchronisation: upstream failure\<close>

text \<open>
  C3.  For a feed response whose status is not 200 the endpoint raises one
  \<^verbatim>\<open>HTTPException\<close> with status 502 and returns the store unchanged.
\<close>

theorem update_prices_upstream_failure:
  assumes "status_code response \<noteq> 200"
  shows "update_prices (Inr response) clock db
           = (db, Inl (HTTPException 502
                         (Msg (''Failed to fetch from CoinGecko: '' @ body_text response))))"
  using assms by (simp add: update_prices_def)

theorem update_prices_upstream_failure_witness:
  "status_code \<lparr>status_code = 429, body_text = ''rate limited'', body_json = None\<rparr> \<noteq> 200
   \<and> update_prices (Inr \<lparr>status_code = 429, body_text = ''rate limited'', body_json = None\<rparr>)
        (\<lambda>k. 300 + int k) sample_db
      = (sample_db, Inl (HTTPException 502
                           (Msg ''Failed to fetch from CoinGecko: rate limited'')))"
  using update_prices_upstream_failure
    [of "\<lparr>status_code = 429, body_text = ''rate limited'', body_json = None\<rparr>"
        "\<lambda>k. 300 + int k" sample_db]
  by simp

section \<open>Ordering facts\<close>

lemma sql_order_desc_stable: "sql_order_desc order_desc_stable"
proof -
  have "sorted (map (\<lambda>r. - timestamp r) (sort_key (\<lambda>r. - timestamp r) rows))"
    for rows :: "'a PriceHistory list"
    by (rule sorted_sort_key)
  then have "newest_first (order_desc_stable rows)" for rows :: "'a PriceHistory list"
    by (simp add: newest_first_def order_desc_stable_def sorted_map)
  then show ?thesis
    by (simp add: sql_order_desc_def order_desc_stable_def)
qed

lemma sql_order_desc_last: "sql_order_desc order_desc_last"
proof -
  have "sorted (map timestamp (sort_key timestamp rows))"
    for rows :: "'a PriceHistory list"
    by (rule sorted_sort_key)
  then have "newest_first (order_desc_last rows)" for rows :: "'a PriceHistory list"
    by (simp add: newest_first_def order_desc_last_def sorted_map sorted_wrt_rev)
  then show ?thesis
    by (simp add: sql_order_desc_def order_desc_last_def)
qed

lemma newest_first_unique:
  assumes nf: "newest_first xs"
    and ms: "mset xs = mset ys"
    and strict: "sorted_wrt (\<lambda>a b. timestamp b < timestamp a) ys"
  shows "xs = ys"
proof -
  let ?kx = "rev (map timestamp xs)" and ?ky = "rev (map timestamp ys)"
  have sy: "sorted_wrt (<) ?ky"
    using strict by (simp add: sorted_wrt_rev sorted_wrt_map)
  then have "sorted ?ky" and dy: "distinct ?ky"
    by (simp_all add: strict_sorted_iff)
  have sx: "sorted ?kx"
    using nf by (simp add: newest_first_def sorted_wrt_rev sorted_wrt_map)
  have mk: "mset (map timestamp xs) = mset (map timestamp ys)"
    using ms by (metis mset_map)
  have "distinct (map timestamp xs)"
    using dy mset_eq_imp_distinct_iff [OF mk] by simp
  then have dx: "distinct ?kx" by simp
  have "set ?kx = set ?ky"
    using mset_eq_setD [OF mk] by simp
  with sx dx \<open>sorted ?ky\<close> dy have "?kx = ?ky"
    by (rule sorted_distinct_set_unique)
  then have keys: "map timestamp xs = map timestamp ys" by simp
  have "inj_on timestamp (set ys)"
    using dy by (simp add: distinct_map)
  moreover have "set xs = set ys" using ms by (rule mset_eq_setD)
  ultimately have "inj_on timestamp (set xs \<union> set ys)" by simp
  then show ?thesis using keys by (simp add: inj_on_map_eq_map)
qed

lemma get_coin_by_name_add_price:
  "get_coin_by_name (fst (add_price db coin p now)) nm = get_coin_by_name db nm"
  by (simp add: get_coin_by_name_def add_price_def Let_def)

lemma first_order_desc_None:
  assumes "sql_order_desc od"
  shows "first (od rows) = None \<longleftrightarrow> rows = []"
proof -
  have "mset (od rows) = mset rows" using assms by (simp add: sql_order_desc_def)
  then have "set (od rows) = set rows" by (rule mset_eq_setD)
  then have "od rows = [] \<longleftrightarrow> rows = []" by (metis set_empty)
  then show ?thesis by (simp add: first_None_iff)
qed

lemma first_order_desc_Some:
  assumes od: "sql_order_desc od" and f: "first (od rows) = Some r"
  shows "r \<in> set rows \<and> (\<forall>r' \<in> set rows. timestamp r' \<le> timestamp r)"
proof -
  from f obtain rest where eq: "od rows = r # rest"
    by (cases "od rows") (simp_all add: first_def)
  have "mset (od rows) = mset rows" using od by (simp add: sql_order_desc_def)
  then have ms: "set (od rows) = set rows" by (rule mset_eq_setD)
  have "newest_first (od rows)" using od by (simp add: sql_order_desc_def)
  then have "newest_first (r # rest)" by (simp add: eq)
  then have "\<forall>r' \<in> set rest. timestamp r' \<le> timestamp r"
    by (simp add: newest_first_def)
  then have "\<forall>r' \<in> set (r # rest). timestamp r' \<le> timestamp r" by simp
  with eq ms show ?thesis by auto
qed

lemma latest_loop_acc:
  "latest_loop od db cs acc = acc @ latest_loop od db cs []"
proof (induction cs arbitrary: acc)
  case Nil
  then show ?case by simp
next
  case (Cons c cs)
  show ?case
  proof (cases "first (od (filter (\<lambda>p. coin_id p = c_id c) (price_history db)))")
    case None
    then show ?thesis using Cons.IH [of acc] by simp
  next
    case (Some latest)
    then show ?thesis
      using Cons.IH [of "acc @ [\<lparr>q_name = name c, q_symbol = symbol c,
                        q_price = price latest, q_timestamp = timestamp latest\<rparr>]"]
            Cons.IH [of "[\<lparr>q_name = name c, q_symbol = symbol c,
                        q_price = price latest, q_timestamp = timestamp latest\<rparr>]"]
      by simp
  qed
qed

lemma latest_loop_latest:
  assumes od: "sql_order_desc od"
  shows "list_all2 (latest_of db) (filter (has_history db) cs) (latest_loop od db cs [])"
proof (induction cs)
  case Nil
  then show ?case by simp
next
  case (Cons c cs)
  let ?rows = "filter (\<lambda>p. coin_id p = c_id c) (price_history db)"
  show ?case
  proof (cases "first (od ?rows)")
    case None
    then have "?rows = []" using first_order_desc_None [OF od] by blast
    then have "\<not> has_history db c"
      by (auto simp: has_history_def filter_empty_conv)
    with None Cons.IH show ?thesis by simp
  next
    case (Some latest)
    from first_order_desc_Some [OF od Some]
    have l: "latest \<in> set (price_history db)" "coin_id latest = c_id c"
      "\<forall>r' \<in> set (price_history db). coin_id r' = c_id c \<longrightarrow> timestamp r' \<le> timestamp latest"
      by auto
    then have hh: "has_history db c" by (auto simp: has_history_def)
    have lq: "latest_of db c \<lparr>q_name = name c, q_symbol = symbol c,
                        q_price = price latest, q_timestamp = timestamp latest\<rparr>"
      using l by (auto simp: latest_of_def)
    have "latest_loop od db (c # cs) []
            = [\<lparr>q_name = name c, q_symbol = symbol c,
                        q_price = price latest, q_timestamp = timestamp latest\<rparr>]
              @ latest_loop od db cs []"
      using Some latest_loop_acc [of od db cs "[\<lparr>q_name = name c, q_symbol = symbol c,
                        q_price = price latest, q_timestamp = timestamp latest\<rparr>]"]
      by simp
    with hh lq Cons.IH show ?thesis by simp
  qed
qed

section \<open>Price history\<close>

text \<open>
  C8.  For a coin found by its name, and any engine ordering that sorts by timestamp
  descending, the history holds exactly the observations of that coin, newest first.
  When the coin has no observation yet and three are appended at times
  \<open>t1 < t2 < t3\<close>, the history is the third, the second, the first.
\<close>

theorem get_price_history_newest_first:
  assumes od: "sql_order_desc order_desc"
    and coin: "get_coin_by_name db nm = Some coin"
  shows "mset (get_price_history order_desc db nm)
           = mset (filter (\<lambda>p. coin_id p = c_id coin) (price_history db))
         \<and> newest_first (get_price_history order_desc db nm)
         \<and> ((\<forall>p \<in> set (price_history db). coin_id p \<noteq> c_id coin) \<and> t1 < t2 \<and> t2 < t3
              \<longrightarrow> (case add_price db coin p1 t1 of (db1, o1) \<Rightarrow>
                    case add_price db1 coin p2 t2 of (db2, o2) \<Rightarrow>
                    case add_price db2 coin p3 t3 of (db3, o3) \<Rightarrow>
                      get_price_history order_desc db3 nm = [o3, o2, o1]
                      \<and> map timestamp [o3, o2, o1] = [t3, t2, t1]
                      \<and> map price [o3, o2, o1] = [p3, p2, p1]))"
proof (intro conjI impI)
  show "mset (get_price_history order_desc db nm)
           = mset (filter (\<lambda>p. coin_id p = c_id coin) (price_history db))"
    using od coin by (simp add: get_price_history_def sql_order_desc_def)
  show "newest_first (get_price_history order_desc db nm)"
    using od coin by (simp add: get_price_history_def sql_order_desc_def)
next
  assume h: "(\<forall>p \<in> set (price_history db). coin_id p \<noteq> c_id coin) \<and> t1 < t2 \<and> t2 < t3"
  obtain db1 o1 where a1: "add_price db coin p1 t1 = (db1, o1)" by (cases "add_price db coin p1 t1")
  obtain db2 o2 where a2: "add_price db1 coin p2 t2 = (db2, o2)" by (cases "add_price db1 coin p2 t2")
  obtain db3 o3 where a3: "add_price db2 coin p3 t3 = (db3, o3)" by (cases "add_price db2 coin p3 t3")
  have o1: "coin_id o1 = c_id coin" "timestamp o1 = t1" "price o1 = p1"
    and d1: "price_history db1 = price_history db @ [o1]" "coins db1 = coins db"
    using a1 by (auto simp: add_price_def Let_def)
  have o2: "coin_id o2 = c_id coin" "timestamp o2 = t2" "price o2 = p2"
    and d2: "price_history db2 = price_history db1 @ [o2]" "coins db2 = coins db1"
    using a2 by (auto simp: add_price_def Let_def)
  have o3: "coin_id o3 = c_id coin" "timestamp o3 = t3" "price o3 = p3"
    and d3: "price_history db3 = price_history db2 @ [o3]" "coins db3 = coins db2"
    using a3 by (auto simp: add_price_def Let_def)
  have none: "filter (\<lambda>p. coin_id p = c_id coin) (price_history db) = []"
    using h by (simp add: filter_empty_conv)
  have rows: "filter (\<lambda>p. coin_id p = c_id coin) (price_history db3) = [o1, o2, o3]"
    by (simp add: d3 d2 d1 o1 o2 o3 none)
  have c3: "get_coin_by_name db3 nm = Some coin"
    using coin by (simp add: get_coin_by_name_def d3 d2 d1)
  have hist: "get_price_history order_desc db3 nm = order_desc [o1, o2, o3]"
    using c3 rows by (simp add: get_price_history_def)
  have "newest_first (order_desc [o1, o2, o3])"
    and "mset (order_desc [o1, o2, o3]) = mset [o1, o2, o3]"
    using od by (simp_all add: sql_order_desc_def)
  moreover have "mset [o1, o2, o3] = mset [o3, o2, o1]" by simp
  moreover have "sorted_wrt (\<lambda>a b. timestamp b < timestamp a) [o3, o2, o1]"
    using h by (simp add: o1 o2 o3)
  ultimately have "order_desc [o1, o2, o3] = [o3, o2, o1]"
    using newest_first_unique by metis
  with hist show "case add_price db coin p1 t1 of (db1, o1) \<Rightarrow>
                    case add_price db1 coin p2 t2 of (db2, o2) \<Rightarrow>
                    case add_price db2 coin p3 t3 of (db3, o3) \<Rightarrow>
                      get_price_history order_desc db3 nm = [o3, o2, o1]
                      \<and> map timestamp [o3, o2, o1] = [t3, t2, t1]
                      \<and> map price [o3, o2, o1] = [p3, p2, p1]"
    by (simp add: a1 a2 a3 o1 o2 o3)
qed

theorem get_price_history_newest_first_witness:
  "sql_order_desc (order_desc_stable :: int PriceHistory list \<Rightarrow> int PriceHistory list)
   \<and> get_coin_by_name sample_db ''Bitcoin'' = Some bitcoin
   \<and> newest_first (get_price_history order_desc_stable sample_db ''Bitcoin'')
   \<and> c_id ethereum \<notin> coin_id ` set (price_history tie_db)
   \<and> get_price_history order_desc_stable
        (fst (add_price (fst (add_price (fst (add_price
           (tie_db\<lparr>coins := [bitcoin, ethereum]\<rparr>) ethereum (JNum 10) 1))
           ethereum (JNum 20) 2)) ethereum (JNum 30) 3))
        ''Ethereum''
      = [observation 5 2 30 3, observation 4 2 20 2, observation 3 2 10 1]"
proof -
  have c: "get_coin_by_name sample_db ''Bitcoin'' = Some bitcoin"
    by (simp add: get_coin_by_name_def first_def sample_defs)
  have n: "c_id ethereum \<notin> coin_id ` set (price_history tie_db)"
    by (simp add: tie_db_def ethereum_def observation_def)
  have v: "get_price_history order_desc_stable
        (fst (add_price (fst (add_price (fst (add_price
           (tie_db\<lparr>coins := [bitcoin, ethereum]\<rparr>) ethereum (JNum 10) 1))
           ethereum (JNum 20) 2)) ethereum (JNum 30) 3))
        ''Ethereum''
      = [observation 5 2 30 3, observation 4 2 20 2, observation 3 2 10 1]"
    by (simp add: get_price_history_def get_coin_by_name_def first_def add_price_def Let_def
        next_id_def tie_db_def bitcoin_def ethereum_def observation_def order_desc_stable_def)
  have "newest_first (get_price_history order_desc_stable sample_db ''Bitcoin'')"
    using get_price_history_newest_first [OF sql_order_desc_stable c] by blast
  with c n v sql_order_desc_stable show ?thesis by blast
qed

text \<open>
  C5.  The scoped history endpoint answers 404, with one and the same detail, when no
  coin has the name, when the coin is not on the caller's watchlist (whatever public
  history it has), and when the coin has no observation.
\<close>

theorem user_price_history_not_found:
  assumes "sql_order_desc order_desc"
    and "nm \<notin> name ` set (coins db)
         \<or> (\<exists>coin. get_coin_by_name db nm = Some coin
              \<and> ((u_id current_user, c_id coin) \<notin> set (user_coins db)
                 \<or> (\<forall>p \<in> set (price_history db). coin_id p \<noteq> c_id coin)))"
  shows "main_get_user_price_history order_desc nm current_user db
           = Inl (HTTPException 404
                    (Msg ''Coin not found, not tracked by user, or no price history''))"
proof -
  have "get_user_price_history order_desc db (u_id current_user) nm = []"
  proof (cases "first (filter (\<lambda>u. u_id u = u_id current_user) (users db))")
    case None
    then show ?thesis by (simp add: get_user_price_history_def)
  next
    case (Some user)
    from first_filter_Some [OF Some] have uu: "u_id user = u_id current_user" by simp
    show ?thesis
    proof (cases "get_coin_by_name db nm")
      case None
      with Some show ?thesis by (simp add: get_user_price_history_def)
    next
      case c: (Some coin)
      then have "nm \<in> name ` set (coins db)"
        using first_filter_Some [of "\<lambda>c. name c = nm" "coins db" coin]
        by (auto simp: get_coin_by_name_def)
      with assms(2) c
      consider "(u_id current_user, c_id coin) \<notin> set (user_coins db)"
        | "\<forall>p \<in> set (price_history db). coin_id p \<noteq> c_id coin"
        by auto
      then show ?thesis
      proof cases
        case 1
        then have "coin \<notin> set (user_coins_of db user)"
          using uu by (simp add: user_coins_of_mem)
        with Some c show ?thesis by (simp add: get_user_price_history_def)
      next
        case 2
        then have "filter (\<lambda>p. coin_id p = c_id coin) (price_history db) = []"
          by (simp add: filter_empty_conv)
        with Some c show ?thesis
          by (simp add: get_user_price_history_def sql_order_desc_Nil [OF assms(1)])
      qed
    qed
  qed
  then show ?thesis by (simp add: main_get_user_price_history_def)
qed

theorem user_price_history_not_found_witness:
  "sql_order_desc (order_desc_stable :: int PriceHistory list \<Rightarrow> int PriceHistory list)
   \<and> get_coin_by_name sample_db ''Ethereum'' = Some ethereum
   \<and> (u_id alice, c_id ethereum) \<notin> set (user_coins sample_db)
   \<and> main_get_price_history order_desc_stable ''Ethereum'' sample_db
       = Inr [observation 2 2 3000 200]
   \<and> ''Dogecoin'' \<notin> name ` set (coins sample_db)
   \<and> main_get_user_price_history order_desc_stable ''Ethereum'' alice sample_db
       = Inl (HTTPException 404
                (Msg ''Coin not found, not tracked by user, or no price history''))
   \<and> main_get_user_price_history order_desc_stable ''Dogecoin'' alice sample_db
       = main_get_user_price_history order_desc_stable ''Ethereum'' alice sample_db"
proof -
  have c: "get_coin_by_name sample_db ''Ethereum'' = Some ethereum"
    by (simp add: get_coin_by_name_def first_def sample_defs)
  have u: "(u_id alice, c_id ethereum) \<notin> set (user_coins sample_db)"
    by (simp add: sample_defs)
  have d: "''Dogecoin'' \<notin> name ` set (coins sample_db)"
    by (simp add: sample_defs)
  have pub: "main_get_price_history order_desc_stable ''Ethereum'' sample_db
       = Inr [observation 2 2 3000 200]"
    by (simp add: main_get_price_history_def get_price_history_def c)
       (simp add: sample_defs order_desc_stable_def)
  have e: "main_get_user_price_history order_desc_stable ''Ethereum'' alice sample_db
       = Inl (HTTPException 404
                (Msg ''Coin not found, not tracked by user, or no price history''))"
    using user_price_history_not_found
            [OF sql_order_desc_stable, of "''Ethereum''" sample_db alice] c u
    by blast
  have g: "main_get_user_price_history order_desc_stable ''Dogecoin'' alice sample_db
       = Inl (HTTPException 404
                (Msg ''Coin not found, not tracked by user, or no price history''))"
    using user_price_history_not_found
            [OF sql_order_desc_stable, of "''Dogecoin''" sample_db alice] d
    by blast
  show ?thesis
    using c u d pub e g sql_order_desc_stable by simp
qed

text \<open>
  C9, as the code has it.  For any engine ordering that sorts by timestamp descending,
  the latest-price query returns one quote for each coin that has history, in the
  order of the coins, and each quote is taken from an observation of its coin with the
  greatest timestamp.  Which of several observations sharing that timestamp is used
  is the engine's choice: the orderings \<open>order_desc_stable\<close> and \<open>order_desc_last\<close>
  both satisfy \<open>sql_order_desc\<close> and give different quotes on \<open>tie_db\<close>.
\<close>

theorem get_latest_prices_greatest_timestamp:
  assumes "sql_order_desc order_desc"
  shows "list_all2 (latest_of db) (filter (has_history db) (coins db))
           (get_latest_prices order_desc db)"
  unfolding get_latest_prices_def using assms by (rule latest_loop_latest)

theorem get_latest_prices_greatest_timestamp_witness:
  "sql_order_desc (order_desc_last :: int PriceHistory list \<Rightarrow> int PriceHistory list)
   \<and> get_latest_prices order_desc_last tie_db
       = [\<lparr>q_name = ''Bitcoin'', q_symbol = ''btc'', q_price = JNum 51000, q_timestamp = 200\<rparr>]
   \<and> list_all2 (latest_of tie_db) [bitcoin] (get_latest_prices order_desc_last tie_db)"
proof -
  have f: "filter (has_history tie_db) (coins tie_db) = [bitcoin]"
    by (simp add: has_history_def tie_db_def bitcoin_def observation_def)
  have v: "get_latest_prices order_desc_last tie_db
       = [\<lparr>q_name = ''Bitcoin'', q_symbol = ''btc'', q_price = JNum 51000, q_timestamp = 200\<rparr>]"
    by (simp add: get_latest_prices_def tie_db_def bitcoin_def observation_def
      order_desc_last_def first_def)
  have "list_all2 (latest_of tie_db) [bitcoin] (get_latest_prices order_desc_last tie_db)"
    using get_latest_prices_greatest_timestamp [OF sql_order_desc_last, of tie_db]
    unfolding f .
  with v sql_order_desc_last show ?thesis by blast
qed

theorem get_latest_prices_tie_counterexample:
  "get_latest_prices order_desc_stable tie_db \<noteq> get_latest_prices order_desc_last tie_db"
  by (simp add: get_latest_prices_def tie_db_def bitcoin_def observation_def
      order_desc_stable_def order_desc_last_def first_def)

section \<open>Synchronisation facts\<close>

lemma get_coin_by_name_None:
  "get_coin_by_name db nm = None \<longleftrightarrow> nm \<notin> name ` set (coins db)"
  by (auto simp: get_coin_by_name_def first_filter_None)

lemma get_coin_by_name_Some:
  "get_coin_by_name db nm = Some c \<Longrightarrow> c \<in> set (coins db) \<and> name c = nm"
  unfolding get_coin_by_name_def by (rule first_filter_Some)

lemma first_filter_append:
  "first (filter P xs) = Some r \<Longrightarrow> first (filter P (xs @ ys)) = Some r"
  by (cases "filter P xs") (simp_all add: first_def)

lemma get_coin_by_name_extend:
  assumes "get_coin_by_name db nm = Some c" and "coins db' = coins db @ extra"
  shows "get_coin_by_name db' nm = Some c"
  using first_filter_append [of "\<lambda>c. name c = nm" "coins db" c extra] assms
  by (simp add: get_coin_by_name_def)

lemma catalog_consistent_iff:
  "catalog_consistent catalog db \<longleftrightarrow>
     (\<forall>c \<in> set (coins db). \<forall>cfg \<in> set catalog.
         symbol c = cfg_symbol cfg \<longrightarrow> name c = cfg_name cfg)"
  by (auto simp: catalog_consistent_def list_all_iff)

lemma upsert_coin_found:
  "get_coin_by_name db nm = Some c \<Longrightarrow> upsert_coin db nm symb = (db, c)"
  by (simp add: upsert_coin_def)

lemma upsert_coin_new:
  "get_coin_by_name db nm = None \<Longrightarrow>
     upsert_coin db nm symb
       = (db\<lparr>coins := coins db @ [\<lparr>c_id = next_id (map c_id (coins db)),
                                     name = nm, symbol = symb\<rparr>]\<rparr>,
          \<lparr>c_id = next_id (map c_id (coins db)), name = nm, symbol = symb\<rparr>)"
  by (simp add: upsert_coin_def Let_def)

lemma upsert_coin_effect:
  assumes u: "upsert_coin db nm symb = (db1, c)"
  shows "users db1 = users db" and "user_coins db1 = user_coins db"
    and "price_history db1 = price_history db"
    and "coins db1 = coins db @ (if nm \<in> name ` set (coins db) then [] else [c])"
    and "get_coin_by_name db1 nm = Some c"
    and "name c = nm"
    and "nm \<notin> name ` set (coins db) \<Longrightarrow> symbol c = symb"
    and "distinct (map c_id (coins db)) \<Longrightarrow> distinct (map c_id (coins db1))"
proof -
  show "users db1 = users db" "user_coins db1 = user_coins db"
    "price_history db1 = price_history db"
    using u by (auto simp: upsert_coin_def Let_def split: option.splits)
  show "coins db1 = coins db @ (if nm \<in> name ` set (coins db) then [] else [c])"
  proof (cases "get_coin_by_name db nm")
    case None
    then show ?thesis using u by (auto simp: upsert_coin_new get_coin_by_name_None)
  next
    case (Some c')
    then have "nm \<in> name ` set (coins db)" using get_coin_by_name_Some by blast
    then show ?thesis using u Some by (auto simp: upsert_coin_found)
  qed
  show "get_coin_by_name db1 nm = Some c"
  proof (cases "get_coin_by_name db nm")
    case None
    then have "filter (\<lambda>c. name c = nm) (coins db) = []"
      by (simp add: get_coin_by_name_def first_None_iff)
    then show ?thesis using u None
      by (auto simp: upsert_coin_new get_coin_by_name_def first_def)
  next
    case (Some c')
    then show ?thesis using u by (auto simp: upsert_coin_found)
  qed
  then show "name c = nm" using get_coin_by_name_Some by blast
  show "symbol c = symb" if "nm \<notin> name ` set (coins db)"
  proof -
    from that have "get_coin_by_name db nm = None" by (simp add: get_coin_by_name_None)
    then show ?thesis using u by (auto simp: upsert_coin_new)
  qed
  show "distinct (map c_id (coins db1))" if d: "distinct (map c_id (coins db))"
  proof (cases "get_coin_by_name db nm")
    case None
    then show ?thesis using u d next_id_fresh [of "map c_id (coins db)"]
      by (auto simp: upsert_coin_new)
  next
    case (Some c')
    then show ?thesis using u d by (auto simp: upsert_coin_found)
  qed
qed

lemma create_coin_no_conflict:
  assumes "get_coin_by_name db nm = None" and "symb \<notin> symbol ` set (coins db)"
  shows "create_coin db \<lparr>cc_name = nm, cc_symbol = symb\<rparr>
           = (fst (upsert_coin db nm symb), Inr (snd (upsert_coin db nm symb)))"
  using assms
  by (simp add: create_coin_def upsert_coin_new Let_def get_coin_by_name_None)

lemma add_price_effect:
  assumes "add_price db c p now = (db2, e)"
  shows "users db2 = users db" and "user_coins db2 = user_coins db"
    and "coins db2 = coins db" and "price_history db2 = price_history db @ [e]"
    and "price e = p" and "coin_id e = c_id c" and "timestamp e = now"
  using assms by (auto simp: add_price_def Let_def)

lemma feed_quote_Some:
  assumes "feed_quote (JDict d) coin = Some p"
  shows "\<exists>q. map_of d (cfg_id coin) = Some (JDict q) \<and> map_of q ''usd'' = Some p"
  using assms by (auto simp: feed_quote_def split: option.splits json.splits)

lemma update_loop_take:
  assumes q: "feed_quote (JDict d) coin = Some p"
    and nc: "get_coin_by_name db (cfg_name coin) = None
             \<longrightarrow> cfg_symbol coin \<notin> symbol ` set (coins db)"
    and u: "upsert_coin db (cfg_name coin) (cfg_symbol coin) = (db1, db_coin)"
    and a: "add_price db1 db_coin p (clock 0) = (db2, e)"
  shows "update_loop clock (JDict d) (coin # rest) db results
           = update_loop (clock \<circ> Suc) (JDict d) rest db2 (results @ [quote_of coin e])"
proof -
  from feed_quote_Some [OF q] obtain qd
    where e1: "map_of d (cfg_id coin) = Some (JDict qd)" and e2: "map_of qd ''usd'' = Some p"
    by blast
  from e2 have mem: "(''usd'', p) \<in> set qd" by (rule map_of_SomeD)
  then have ne: "qd \<noteq> []" by auto
  from mem have inn: "''usd'' \<in> fst ` set qd" by force
  have goc: "(case get_coin_by_name db (cfg_name coin) of
                Some db_coin \<Rightarrow> (db, Inr db_coin)
              | None \<Rightarrow> create_coin db \<lparr>cc_name = cfg_name coin, cc_symbol = cfg_symbol coin\<rparr>)
             = (db1, Inr db_coin)"
  proof (cases "get_coin_by_name db (cfg_name coin)")
    case None
    with nc have "cfg_symbol coin \<notin> symbol ` set (coins db)" by simp
    from create_coin_no_conflict [OF None this] u None show ?thesis by simp
  next
    case (Some c')
    with u show ?thesis by (simp add: upsert_coin_found)
  qed
  show ?thesis
    by (simp add: e1 e2 ne inn py_not_in_def goc a quote_of_def del: image_eqI)
qed

lemma update_loop_skip:
  assumes q: "feed_quote (JDict d) coin = None"
    and wf: "feed_well_formed (JDict d) (coin # rest)"
  shows "update_loop clock (JDict d) (coin # rest) db results
           = update_loop clock (JDict d) rest db results"
proof (cases "map_of d (cfg_id coin)")
  case None
  then show ?thesis by simp
next
  case (Some v)
  with wf obtain qd where v: "v = JDict qd"
    by (auto simp: feed_well_formed_def split: json.splits)
  with q Some have "map_of qd ''usd'' = None" by (simp add: feed_quote_def)
  then have "''usd'' \<notin> fst ` set qd" by (simp add: map_of_eq_None_iff)
  with Some v show ?thesis by (simp add: py_not_in_def)
qed

lemma feed_well_formed_tail:
  "feed_well_formed (JDict d) (coin # rest) \<Longrightarrow> feed_well_formed (JDict d) rest"
  by (simp add: feed_well_formed_def)

lemma sync_outcome_Nil: "sync_outcome prices [] db db []"
  by (simp add: sync_outcome_def)

lemma sync_outcome_Cons:
  assumes q: "feed_quote prices coin = Some p"
    and u: "upsert_coin db (cfg_name coin) (cfg_symbol coin) = (db1, db_coin)"
    and a: "add_price db1 db_coin p now = (db2, e)"
    and rest: "sync_outcome prices updated db2 db' quotes"
    and fresh: "cfg_name coin \<notin> set (map cfg_name updated)"
  shows "sync_outcome prices (coin # updated) db db' (quote_of coin e # quotes)"
proof -
  note ue = upsert_coin_effect [OF u] and ae = add_price_effect [OF a]
  from rest obtain new_coins new_rows where
    r1: "users db' = users db2" "user_coins db' = user_coins db2"
    and r2: "coins db' = coins db2 @ new_coins"
    and r3: "map (\<lambda>c. (name c, symbol c)) new_coins
               = map (\<lambda>cfg. (cfg_name cfg, cfg_symbol cfg))
                   (filter (\<lambda>cfg. cfg_name cfg \<notin> name ` set (coins db2)) updated)"
    and r4: "price_history db' = price_history db2 @ new_rows"
    and r5: "list_all2
              (\<lambda>coin row. feed_quote prices coin = Some (price row)
                 \<and> (\<exists>c. get_coin_by_name db' (cfg_name coin) = Some c \<and> coin_id row = c_id c))
              updated new_rows"
    and r6: "quotes = map2 quote_of updated new_rows"
    and r7: "distinct (map c_id (coins db2)) \<longrightarrow> distinct (map c_id (coins db'))"
    unfolding sync_outcome_def by blast
  let ?first = "if cfg_name coin \<in> name ` set (coins db) then [] else [db_coin]"
  have c2: "coins db2 = coins db @ ?first" using ue(4) ae(3) by simp
  have k1: "users db' = users db" "user_coins db' = user_coins db"
    using r1 ue(1,2) ae(1,2) by simp_all
  have k2: "coins db' = coins db @ (?first @ new_coins)" using r2 c2 by simp
  have same_filter:
    "filter (\<lambda>cfg. cfg_name cfg \<notin> name ` set (coins db2)) updated
       = filter (\<lambda>cfg. cfg_name cfg \<notin> name ` set (coins db)) updated"
  proof (rule filter_cong [OF refl])
    fix cfg assume "cfg \<in> set updated"
    then have m: "cfg_name cfg \<in> set (map cfg_name updated)" by simp
    have "cfg_name cfg \<noteq> cfg_name coin"
    proof
      assume "cfg_name cfg = cfg_name coin"
      with m fresh show False by simp
    qed
    then show "(cfg_name cfg \<notin> name ` set (coins db2))
                 = (cfg_name cfg \<notin> name ` set (coins db))"
      using c2 ue(6) by auto
  qed
  have k3: "map (\<lambda>c. (name c, symbol c)) (?first @ new_coins)
              = map (\<lambda>cfg. (cfg_name cfg, cfg_symbol cfg))
                  (filter (\<lambda>cfg. cfg_name cfg \<notin> name ` set (coins db)) (coin # updated))"
    using r3 same_filter ue(6) ue(7) by simp
  have k4: "price_history db' = price_history db @ (e # new_rows)"
    using r4 ae(4) ue(3) by simp
  have "get_coin_by_name db2 (cfg_name coin) = Some db_coin"
    using ue(5) ae(3) by (simp add: get_coin_by_name_def)
  then have found: "get_coin_by_name db' (cfg_name coin) = Some db_coin"
    using r2 by (rule get_coin_by_name_extend)
  have k5: "list_all2
              (\<lambda>coin row. feed_quote prices coin = Some (price row)
                 \<and> (\<exists>c. get_coin_by_name db' (cfg_name coin) = Some c \<and> coin_id row = c_id c))
              (coin # updated) (e # new_rows)"
    using r5 q found ae(5,6) by simp
  have k6: "quote_of coin e # quotes = map2 quote_of (coin # updated) (e # new_rows)"
    using r6 by simp
  have k7: "distinct (map c_id (coins db)) \<longrightarrow> distinct (map c_id (coins db'))"
    using r7 ue(8) ae(3) by simp
  show ?thesis
    unfolding sync_outcome_def
    apply (rule conjI, rule k1(1))
    apply (rule conjI, rule k1(2))
    apply (rule conjI)
     apply (rule exI [of _ "?first @ new_coins"])
     apply (rule exI [of _ "e # new_rows"])
     apply (intro conjI k2 k3 k4 k5 k6)
    apply (rule k7)
    done
qed

lemma catalog_consistent_step:
  assumes cc: "catalog_consistent (coin # rest) db"
    and ds: "distinct (map cfg_symbol (coin # rest))"
    and u: "upsert_coin db (cfg_name coin) (cfg_symbol coin) = (db1, db_coin)"
    and a: "add_price db1 db_coin p now = (db2, e)"
  shows "catalog_consistent rest db2"
proof -
  note ue = upsert_coin_effect [OF u] and ae = add_price_effect [OF a]
  have c2: "coins db2 = coins db
              @ (if cfg_name coin \<in> name ` set (coins db) then [] else [db_coin])"
    using ue(4) ae(3) by simp
  show ?thesis
    unfolding catalog_consistent_iff
  proof (intro ballI impI)
    fix c cfg
    assume c: "c \<in> set (coins db2)" and cfg: "cfg \<in> set rest"
      and s: "symbol c = cfg_symbol cfg"
    show "name c = cfg_name cfg"
    proof (cases "c \<in> set (coins db)")
      case True
      with cc cfg s show ?thesis unfolding catalog_consistent_iff by auto
    next
      case False
      with c c2 have new: "c = db_coin" "cfg_name coin \<notin> name ` set (coins db)"
        by (auto split: if_splits)
      then have "symbol c = cfg_symbol coin" using ue(7) by simp
      with s have "cfg_symbol cfg = cfg_symbol coin" by simp
      moreover have "cfg_symbol cfg \<in> set (map cfg_symbol rest)" using cfg by simp
      moreover have "cfg_symbol coin \<notin> set (map cfg_symbol rest)" using ds by simp
      ultimately have False by simp
      then show ?thesis ..
    qed
  qed
qed

lemma catalog_consistent_no_conflict:
  assumes cc: "catalog_consistent (coin # rest) db"
  shows "get_coin_by_name db (cfg_name coin) = None
           \<longrightarrow> cfg_symbol coin \<notin> symbol ` set (coins db)"
proof (intro impI notI)
  assume n: "get_coin_by_name db (cfg_name coin) = None"
    and "cfg_symbol coin \<in> symbol ` set (coins db)"
  then obtain c where c: "c \<in> set (coins db)" "symbol c = cfg_symbol coin" by auto
  with cc have "name c = cfg_name coin" unfolding catalog_consistent_iff by auto
  with c(1) have "cfg_name coin \<in> name ` set (coins db)" by force
  with n show False by (simp add: get_coin_by_name_None)
qed

lemma catalog_consistent_tail:
  "catalog_consistent (coin # rest) db \<Longrightarrow> catalog_consistent rest db"
  unfolding catalog_consistent_iff by auto

lemma update_loop_outcome:
  assumes "distinct (map cfg_name catalog)" and "distinct (map cfg_symbol catalog)"
    and "catalog_consistent catalog db" and "feed_well_formed (JDict d) catalog"
  shows "\<exists>db' quotes.
           update_loop clock (JDict d) catalog db results = (db', Inr (results @ quotes))
           \<and> sync_outcome (JDict d) (filter (\<lambda>c. feed_quote (JDict d) c \<noteq> None) catalog)
                db db' quotes"
  using assms
proof (induction catalog arbitrary: clock db results)
  case Nil
  then show ?case by (simp add: sync_outcome_Nil)
next
  case (Cons coin rest)
  have dn: "distinct (map cfg_name rest)" and ds: "distinct (map cfg_symbol rest)"
    using Cons.prems(1,2) by simp_all
  have wf: "feed_well_formed (JDict d) rest"
    using Cons.prems(4) by (rule feed_well_formed_tail)
  show ?case
  proof (cases "feed_quote (JDict d) coin")
    case None
    have cc: "catalog_consistent rest db"
      using Cons.prems(3) by (rule catalog_consistent_tail)
    from Cons.IH [OF dn ds cc wf, of clock results] obtain db' quotes where
      "update_loop clock (JDict d) rest db results = (db', Inr (results @ quotes))"
      "sync_outcome (JDict d) (filter (\<lambda>c. feed_quote (JDict d) c \<noteq> None) rest) db db' quotes"
      by blast
    then show ?thesis
      using None update_loop_skip [OF None Cons.prems(4), of clock db results] by auto
  next
    case (Some p)
    obtain db1 db_coin
      where u: "upsert_coin db (cfg_name coin) (cfg_symbol coin) = (db1, db_coin)"
      by (cases "upsert_coin db (cfg_name coin) (cfg_symbol coin)")
    obtain db2 e where a: "add_price db1 db_coin p (clock 0) = (db2, e)"
      by (cases "add_price db1 db_coin p (clock 0)")
    have cc: "catalog_consistent rest db2"
      using Cons.prems(3) Cons.prems(2) u a by (rule catalog_consistent_step)
    have step: "update_loop clock (JDict d) (coin # rest) db results
                  = update_loop (clock \<circ> Suc) (JDict d) rest db2 (results @ [quote_of coin e])"
      using Some catalog_consistent_no_conflict [OF Cons.prems(3)] u a
      by (rule update_loop_take)
    from Cons.IH [OF dn ds cc wf, of "clock \<circ> Suc" "results @ [quote_of coin e]"]
    obtain db' quotes where
      l: "update_loop (clock \<circ> Suc) (JDict d) rest db2 (results @ [quote_of coin e])
            = (db', Inr ((results @ [quote_of coin e]) @ quotes))"
      and o: "sync_outcome (JDict d) (filter (\<lambda>c. feed_quote (JDict d) c \<noteq> None) rest)
                db2 db' quotes"
      by blast
    have "cfg_name coin \<notin> set (map cfg_name rest)" using Cons.prems(1) by simp
    moreover have "set (map cfg_name (filter (\<lambda>c. feed_quote (JDict d) c \<noteq> None) rest))
                     \<subseteq> set (map cfg_name rest)" by auto
    ultimately have fresh: "cfg_name coin
                   \<notin> set (map cfg_name (filter (\<lambda>c. feed_quote (JDict d) c \<noteq> None) rest))"
      by blast
    have "sync_outcome (JDict d) (coin # filter (\<lambda>c. feed_quote (JDict d) c \<noteq> None) rest)
            db db' (quote_of coin e # quotes)"
      using Some u a o fresh by (rule sync_outcome_Cons)
    then show ?thesis using step l Some by simp
  qed
qed

lemma list_all2_right_member:
  "list_all2 P xs ys \<Longrightarrow> y \<in> set ys \<Longrightarrow> \<exists>x \<in> set xs. P x y"
  by (induction rule: list_all2_induct) auto

lemma sync_outcome_untouched:
  assumes o: "sync_outcome prices updated db db' quotes"
    and d: "distinct (map c_id (coins db))"
    and s: "s \<in> set (coins db')"
    and n: "name s \<notin> set (map cfg_name updated)"
  shows "s \<in> set (coins db)
         \<and> filter (\<lambda>p. coin_id p = c_id s) (price_history db')
             = filter (\<lambda>p. coin_id p = c_id s) (price_history db)"
proof -
  from o obtain new_coins new_rows where
    r2: "coins db' = coins db @ new_coins"
    and r3: "map (\<lambda>c. (name c, symbol c)) new_coins
               = map (\<lambda>cfg. (cfg_name cfg, cfg_symbol cfg))
                   (filter (\<lambda>cfg. cfg_name cfg \<notin> name ` set (coins db)) updated)"
    and r4: "price_history db' = price_history db @ new_rows"
    and r5: "list_all2
              (\<lambda>coin row. feed_quote prices coin = Some (price row)
                 \<and> (\<exists>c. get_coin_by_name db' (cfg_name coin) = Some c \<and> coin_id row = c_id c))
              updated new_rows"
    and r7: "distinct (map c_id (coins db)) \<longrightarrow> distinct (map c_id (coins db'))"
    unfolding sync_outcome_def by blast
  have old: "s \<in> set (coins db)"
  proof (rule ccontr)
    assume "s \<notin> set (coins db)"
    with s r2 have "s \<in> set new_coins" by simp
    then have "(name s, symbol s) \<in> set (map (\<lambda>c. (name c, symbol c)) new_coins)"
      by (simp add: image_iff) blast
    with r3 have "name s \<in> set (map cfg_name updated)" by auto
    with n show False by simp
  qed
  from d r7 have inj: "inj_on c_id (set (coins db'))" by (simp add: distinct_map)
  have "coin_id r \<noteq> c_id s" if r: "r \<in> set new_rows" for r
  proof
    assume eq: "coin_id r = c_id s"
    from list_all2_right_member [OF r5 r] obtain coin c
      where coin: "coin \<in> set updated"
        and c: "get_coin_by_name db' (cfg_name coin) = Some c" "coin_id r = c_id c"
      by blast
    from get_coin_by_name_Some [OF c(1)]
    have cin: "c \<in> set (coins db')" and cn: "name c = cfg_name coin" by simp_all
    from eq c(2) have "c_id c = c_id s" by simp
    with inj cin s have "c = s" by (auto dest: inj_onD)
    with cn coin have "name s \<in> set (map cfg_name updated)" by simp
    with n show False by simp
  qed
  then have "filter (\<lambda>p. coin_id p = c_id s) new_rows = []"
    by (simp add: filter_empty_conv)
  with r4 old show ?thesis by simp
qed

lemma sync_outcome_length:
  assumes "sync_outcome prices updated db db' quotes"
  shows "length quotes = length updated"
proof -
  from assms obtain new_rows where
    "list_all2
       (\<lambda>coin row. feed_quote prices coin = Some (price row)
          \<and> (\<exists>c. get_coin_by_name db' (cfg_name coin) = Some c \<and> coin_id row = c_id c))
       updated new_rows"
    and q: "quotes = map2 quote_of updated new_rows"
    unfolding sync_outcome_def by blast
  then have "length updated = length new_rows" by (simp add: list_all2_lengthD)
  with q show ?thesis by simp
qed

lemma COINS_distinct:
  "distinct (map cfg_name COINS)" "distinct (map cfg_symbol COINS)"
  by (simp_all add: COINS_def)

lemma sync_outcome_consistent:
  assumes o: "sync_outcome prices updated db db' quotes"
    and sub: "set updated \<subseteq> set catalog"
    and ds: "distinct (map cfg_symbol catalog)"
    and cc: "catalog_consistent catalog db"
  shows "catalog_consistent catalog db'"
proof -
  from o obtain new_coins where
    r2: "coins db' = coins db @ new_coins"
    and r3: "map (\<lambda>c. (name c, symbol c)) new_coins
               = map (\<lambda>cfg. (cfg_name cfg, cfg_symbol cfg))
                   (filter (\<lambda>cfg. cfg_name cfg \<notin> name ` set (coins db)) updated)"
    unfolding sync_outcome_def by blast
  from ds have inj: "inj_on cfg_symbol (set catalog)" by (simp add: distinct_map)
  show ?thesis
    unfolding catalog_consistent_iff
  proof (intro ballI impI)
    fix c cfg
    assume c: "c \<in> set (coins db')" and cfg: "cfg \<in> set catalog"
      and s: "symbol c = cfg_symbol cfg"
    show "name c = cfg_name cfg"
    proof (cases "c \<in> set (coins db)")
      case True
      with cc cfg s show ?thesis unfolding catalog_consistent_iff by auto
    next
      case False
      with c r2 have "c \<in> set new_coins" by simp
      then have "(name c, symbol c) \<in> set (map (\<lambda>c. (name c, symbol c)) new_coins)"
        by (simp add: image_iff) blast
      with r3 obtain k where k: "k \<in> set updated" "name c = cfg_name k"
        "symbol c = cfg_symbol k" by auto
      from k(1) sub have "k \<in> set catalog" by blast
      moreover from k(3) s have "cfg_symbol k = cfg_symbol cfg" by simp
      ultimately have "k = cfg" using inj cfg by (auto dest: inj_onD)
      with k(2) show ?thesis by simp
    qed
  qed
qed

section \<open>Price synchronisation: success\<close>

text \<open>
  C4, as the code has it.  Let the feed answer 200 with a body of the feed's shape
  (\<open>feed_well_formed\<close>), and let the stored coins agree with the catalog.  Then the
  endpoint succeeds, and with \<open>updated\<close> the catalog coins that have a \<^verbatim>\<open>usd\<close> field
  in the response: the count returned is the number of updated coins and the length
  of the returned list; each updated coin is stored (kept if its name was stored,
  created with the catalog's name and symbol otherwise), gets exactly one new
  observation carrying its quoted price, and appears in the returned list, all in
  catalog order; nothing else is written.  In particular, with unique coin
  identifiers, a catalog coin without a \<^verbatim>\<open>usd\<close> field is neither created nor given an
  observation.  The stored coins still agree with the catalog afterwards.

  The restriction to the feed's shape is needed.  The loop tests an entry with
  \<^verbatim>\<open>not price_data or "usd" not in price_data\<close>, which presumes an object: on
  \<open>number_entry_feed\<close> the Ethereum entry has no \<^verbatim>\<open>usd\<close> field, yet it is not skipped
  but raises \<^verbatim>\<open>TypeError\<close>, and the endpoint answers 500 with no count after the
  observation for Bitcoin has been committed.  On \<open>null_price_feed\<close> the \<^verbatim>\<open>usd\<close>
  field holds no price, yet the coin is updated and counted, with a null price.
\<close>

theorem update_prices_success:
  assumes ok: "status_code response = 200"
    and body: "body_json response = Some prices"
    and wf: "feed_well_formed prices COINS"
    and cc: "catalog_consistent COINS db"
  shows "\<exists>db' result.
           update_prices (Inr response) clock db = (db', Inr result)
           \<and> r_status result = ''success''
           \<and> r_count result = length (filter (\<lambda>c. feed_quote prices c \<noteq> None) COINS)
           \<and> length (r_data result) = r_count result
           \<and> sync_outcome prices (filter (\<lambda>c. feed_quote prices c \<noteq> None) COINS)
                db db' (r_data result)
           \<and> catalog_consistent COINS db'
           \<and> (distinct (map c_id (coins db)) \<longrightarrow>
                (\<forall>coin \<in> set COINS. feed_quote prices coin = None \<longrightarrow>
                   (\<forall>s \<in> set (coins db'). name s = cfg_name coin \<longrightarrow>
                      s \<in> set (coins db)
                      \<and> filter (\<lambda>p. coin_id p = c_id s) (price_history db')
                          = filter (\<lambda>p. coin_id p = c_id s) (price_history db))))"
proof -
  let ?updated = "filter (\<lambda>c. feed_quote prices c \<noteq> None) COINS"
  from wf obtain d where d: "prices = JDict d"
    by (cases prices) (simp_all add: feed_well_formed_def)
  from update_loop_outcome [OF COINS_distinct cc [unfolded d] wf [unfolded d], of clock "[]"]
  obtain db' quotes where
    l: "update_loop clock prices COINS db [] = (db', Inr quotes)"
    and o: "sync_outcome prices ?updated db db' quotes"
    unfolding d by auto
  let ?result = "\<lparr>r_status = ''success'', r_data = quotes, r_count = length quotes\<rparr>"
  have run: "update_prices (Inr response) clock db = (db', Inr ?result)"
    using ok body l by (simp add: update_prices_def)
  have len: "length quotes = length ?updated" using o by (rule sync_outcome_length)
  have untouched:
    "s \<in> set (coins db)
     \<and> filter (\<lambda>p. coin_id p = c_id s) (price_history db')
         = filter (\<lambda>p. coin_id p = c_id s) (price_history db)"
    if dd: "distinct (map c_id (coins db))" and coin: "coin \<in> set COINS"
      and none: "feed_quote prices coin = None"
      and s: "s \<in> set (coins db')" and nm: "name s = cfg_name coin" for coin s
  proof -
    have "name s \<notin> set (map cfg_name ?updated)"
    proof
      assume "name s \<in> set (map cfg_name ?updated)"
      then obtain c where c: "c \<in> set COINS" "feed_quote prices c \<noteq> None"
        "cfg_name c = cfg_name coin" using nm by auto
      from COINS_distinct(1) have "inj_on cfg_name (set COINS)" by (simp add: distinct_map)
      with c(1,3) coin have "c = coin" by (auto dest: inj_onD)
      with c(2) none show False by simp
    qed
    with o dd s show ?thesis by (rule sync_outcome_untouched)
  qed
  have cc': "catalog_consistent COINS db'"
    using o _ COINS_distinct(2) cc by (rule sync_outcome_consistent) simp
  show ?thesis
    apply (rule exI [of _ db'], rule exI [of _ ?result])
    using run len o cc' untouched by simp
qed

theorem update_prices_success_witness:
  "status_code sample_feed = 200
   \<and> feed_well_formed (the (body_json sample_feed)) COINS
   \<and> catalog_consistent COINS sample_db
   \<and> update_prices (Inr sample_feed) (\<lambda>k. 300 + int k) sample_db
     = (sample_db\<lparr>coins := [bitcoin, ethereum, \<lparr>c_id = 3, name = ''Solana'', symbol = ''sol''\<rparr>],
                  price_history := [observation 1 1 50000 200, observation 2 2 3000 200,
                                    observation 3 1 50000 300, observation 4 3 150 301]\<rparr>,
        Inr \<lparr>r_status = ''success'',
             r_data = [\<lparr>q_name = ''Bitcoin'', q_symbol = ''btc'', q_price = JNum 50000,
                        q_timestamp = 300\<rparr>,
                       \<lparr>q_name = ''Solana'', q_symbol = ''sol'', q_price = JNum 150,
                        q_timestamp = 301\<rparr>],
             r_count = 2\<rparr>)
   \<and> sync_outcome (the (body_json sample_feed))
        [\<lparr>cfg_name = ''Bitcoin'', cfg_symbol = ''btc'', cfg_id = ''bitcoin''\<rparr>,
         \<lparr>cfg_name = ''Solana'', cfg_symbol = ''sol'', cfg_id = ''solana''\<rparr>]
        sample_db
        (fst (update_prices (Inr sample_feed) (\<lambda>k. 300 + int k) sample_db))
        [\<lparr>q_name = ''Bitcoin'', q_symbol = ''btc'', q_price = JNum 50000, q_timestamp = 300\<rparr>,
         \<lparr>q_name = ''Solana'', q_symbol = ''sol'', q_price = JNum 150, q_timestamp = 301\<rparr>]"
proof -
  let ?prices = "the (body_json sample_feed)"
  have ok: "status_code sample_feed = 200" by (simp add: sample_feed_def)
  have body: "body_json sample_feed = Some ?prices" by (simp add: sample_feed_def)
  have wf: "feed_well_formed ?prices COINS"
    by (simp add: feed_well_formed_def sample_feed_def COINS_def)
  have cc: "catalog_consistent COINS sample_db"
    by (simp add: catalog_consistent_def COINS_def sample_defs)
  have upd: "filter (\<lambda>c. feed_quote ?prices c \<noteq> None) COINS
      = [\<lparr>cfg_name = ''Bitcoin'', cfg_symbol = ''btc'', cfg_id = ''bitcoin''\<rparr>,
         \<lparr>cfg_name = ''Solana'', cfg_symbol = ''sol'', cfg_id = ''solana''\<rparr>]"
    by (simp add: feed_quote_def sample_feed_def COINS_def)
  have run: "update_prices (Inr sample_feed) (\<lambda>k. 300 + int k) sample_db
     = (sample_db\<lparr>coins := [bitcoin, ethereum, \<lparr>c_id = 3, name = ''Solana'', symbol = ''sol''\<rparr>],
                  price_history := [observation 1 1 50000 200, observation 2 2 3000 200,
                                    observation 3 1 50000 300, observation 4 3 150 301]\<rparr>,
        Inr \<lparr>r_status = ''success'',
             r_data = [\<lparr>q_name = ''Bitcoin'', q_symbol = ''btc'', q_price = JNum 50000,
                        q_timestamp = 300\<rparr>,
                       \<lparr>q_name = ''Solana'', q_symbol = ''sol'', q_price = JNum 150,
                        q_timestamp = 301\<rparr>],
             r_count = 2\<rparr>)"
    by (simp add: update_prices_def sample_feed_def COINS_def py_not_in_def
        get_coin_by_name_def first_def create_coin_def add_price_def Let_def next_id_def
        sample_defs)
  from update_prices_success [OF ok body wf cc, of "\<lambda>k. 300 + int k"]
  obtain db' result where
    r: "update_prices (Inr sample_feed) (\<lambda>k. 300 + int k) sample_db = (db', Inr result)"
    and o: "sync_outcome ?prices (filter (\<lambda>c. feed_quote ?prices c \<noteq> None) COINS)
              sample_db db' (r_data result)"
    by blast
  from r run have "db' = fst (update_prices (Inr sample_feed) (\<lambda>k. 300 + int k) sample_db)"
    and "r_data result
           = [\<lparr>q_name = ''Bitcoin'', q_symbol = ''btc'', q_price = JNum 50000,
               q_timestamp = 300\<rparr>,
              \<lparr>q_name = ''Solana'', q_symbol = ''sol'', q_price = JNum 150,
               q_timestamp = 301\<rparr>]"
    by auto
  with o upd have "sync_outcome ?prices
        [\<lparr>cfg_name = ''Bitcoin'', cfg_symbol = ''btc'', cfg_id = ''bitcoin''\<rparr>,
         \<lparr>cfg_name = ''Solana'', cfg_symbol = ''sol'', cfg_id = ''solana''\<rparr>]
        sample_db
        (fst (update_prices (Inr sample_feed) (\<lambda>k. 300 + int k) sample_db))
        [\<lparr>q_name = ''Bitcoin'', q_symbol = ''btc'', q_price = JNum 50000, q_timestamp = 300\<rparr>,
         \<lparr>q_name = ''Solana'', q_symbol = ''sol'', q_price = JNum 150, q_timestamp = 301\<rparr>]"
    by simp
  with ok wf cc run show ?thesis by blast
qed

theorem update_prices_shape_counterexample:
  "status_code number_entry_feed = 200
   \<and> feed_quote (the (body_json number_entry_feed))
        \<lparr>cfg_name = ''Ethereum'', cfg_symbol = ''eth'', cfg_id = ''ethereum''\<rparr> = None
   \<and> update_prices (Inr number_entry_feed) (\<lambda>k. 300 + int k) sample_db
     = (sample_db\<lparr>price_history := [observation 1 1 50000 200, observation 2 2 3000 200,
                                       observation 3 1 50000 300]\<rparr>,
        Inl (HTTPException 500
               (MsgExc ''An error occurred while updating prices: '' TypeError)))
   \<and> status_code null_price_feed = 200
   \<and> update_prices (Inr null_price_feed) (\<lambda>k. 300 + int k) sample_db
     = (sample_db\<lparr>price_history :=
                     [observation 1 1 50000 200, observation 2 2 3000 200,
                      \<lparr>ph_id = 3, coin_id = 1, price = JNull, volume_24h = None,
                       change_24h = None, market_cap = None, timestamp = 300\<rparr>]\<rparr>,
        Inr \<lparr>r_status = ''success'',
             r_data = [\<lparr>q_name = ''Bitcoin'', q_symbol = ''btc'', q_price = JNull,
                        q_timestamp = 300\<rparr>],
             r_count = 1\<rparr>)"
  by (simp add: update_prices_def number_entry_feed_def null_price_feed_def feed_quote_def
      COINS_def py_not_in_def get_coin_by_name_def first_def create_coin_def add_price_def
      Let_def next_id_def sample_defs)

end
